theory Spec2Isabelle
  imports Main
begin

section \<open>JavaScript string helpers used by the handlers\<close>

text \<open>
  Strings are lists of 8-bit characters (read as Latin-1 code units). A JavaScript value
  that may be \<open>undefined\<close> is an \<open>option\<close>; a string is truthy when it is defined and
  not empty.
\<close>

definition truthy :: "string option \<Rightarrow> bool" where
  "truthy v = (case v of None \<Rightarrow> False | Some s \<Rightarrow> s \<noteq> [])"

text \<open>\<open>a || b\<close> on an optional string and a string.\<close>

definition or_else :: "string option \<Rightarrow> string \<Rightarrow> string" where
  "or_else v d = (case v of None \<Rightarrow> d | Some s \<Rightarrow> (if s = [] then d else s))"

text \<open>\<open>s.split(c)\<close>: never empty, \<open>''''.split(c)\<close> is \<open>['''']\<close>.\<close>

fun split :: "char \<Rightarrow> string \<Rightarrow> string list" where
  "split c [] = [] # []"
| "split c (x # xs) =
     (if x = c then [] # split c xs
      else (case split c xs of [] \<Rightarrow> [x] # [] | s # ss \<Rightarrow> (x # s) # ss))"

text \<open>\<open>s.split('/').pop()\<close>: the last element of the split.\<close>

definition split_pop :: "string \<Rightarrow> string" where
  "split_pop s = last (split (CHR ''/'') s)"

text \<open>Decimal rendering of a non-negative integer, as a template literal prints it.\<close>

definition digit_char :: "nat \<Rightarrow> char" where
  "digit_char d = ''0123456789'' ! d"

function show_nat :: "nat \<Rightarrow> string" where
  "show_nat n = (if n < 10 then [digit_char n] else show_nat (n div 10) @ [digit_char (n mod 10)])"
  by pat_completeness auto
termination
  by (relation "measure id") auto

declare show_nat.simps [simp del]

subsection \<open>The filename slug\<close>

text \<open>
  \<^verbatim>\<open>
  base.toLowerCase()
      .replace(/[^a-z0-9]+/g, '-')
      .replace(/^-+|-+$/g, '')
      .substring(0, 50)
  \<close>
  \<open>toLowerCase\<close> maps \<open>A\<close>..\<open>Z\<close> to \<open>a\<close>..\<open>z\<close>; every other Latin-1 character stays
  outside \<open>[a-z0-9]\<close> whatever it is mapped to, so it is left as it is. Characters beyond
  Latin-1 that JavaScript lower-cases into \<open>[a-z]\<close> (U+212A, U+0130) are outside the model.
\<close>

definition upper_chars :: string where
  "upper_chars = ''ABCDEFGHIJKLMNOPQRSTUVWXYZ''"

definition lower_chars :: string where
  "lower_chars = ''abcdefghijklmnopqrstuvwxyz''"

definition digit_chars :: string where
  "digit_chars = ''0123456789''"

definition toLowerChar :: "char \<Rightarrow> char" where
  "toLowerChar c = (case map_of (zip upper_chars lower_chars) c of None \<Rightarrow> c | Some l \<Rightarrow> l)"

definition toLowerCase :: "string \<Rightarrow> string" where
  "toLowerCase s = map toLowerChar s"

text \<open>The character class \<open>[a-z0-9]\<close>.\<close>

definition alnum :: "char \<Rightarrow> bool" where
  "alnum c = (c \<in> set (lower_chars @ digit_chars))"

text \<open>
  \<open>.replace(/[^a-z0-9]+/g, '-')\<close>: every maximal run of characters outside the class
  becomes one hyphen.
\<close>

function replace_runs :: "string \<Rightarrow> string" where
  "replace_runs [] = []"
| "replace_runs (c # cs) =
     (if alnum c then c # replace_runs cs
      else CHR ''-'' # replace_runs (dropWhile (\<lambda>x. \<not> alnum x) cs))"
  by pat_completeness auto
termination
  by (relation "measure length") (auto simp: le_imp_less_Suc length_dropWhile_le)

text \<open>\<open>.replace(/^-+|-+$/g, '')\<close>: the leading and the trailing hyphens go.\<close>

definition strip_hyphens :: "string \<Rightarrow> string" where
  "strip_hyphens s =
     rev (dropWhile (\<lambda>x. x = CHR ''-'') (rev (dropWhile (\<lambda>x. x = CHR ''-'') s)))"

definition slug :: "string \<Rightarrow> string" where
  "slug s = take 50 (strip_hyphens (replace_runs (toLowerCase s)))"

section \<open>Data model\<close>

text \<open>The enumerations of the zod schemas and of \<open>types/index.ts\<close>.\<close>

datatype service = Pinata | NftStorage | Web3Storage

datatype style = Realistic | Artistic | Cartoon | Fantasy | Cyberpunk | Minimalist

datatype aspect_ratio = R1x1 | R16x9 | R9x16 | R4x3 | R3x4

datatype quality = Standard | High | Ultra

fun service_name :: "service \<Rightarrow> string" where
  "service_name Pinata = ''pinata''"
| "service_name NftStorage = ''nftStorage''"
| "service_name Web3Storage = ''web3Storage''"

text \<open>A JSON value, for \<open>z.record(z.any())\<close>.\<close>

datatype jvalue =
  JNull | JBool bool | JNum int | JStr string | JArr "jvalue list" | JObj "(string \<times> jvalue) list"

datatype trait_value = TraitString string | TraitNumber int

record attribute =
  trait_type :: string
  trait_value :: trait_value

text \<open>\<open>ImageGenerationRequest\<close> and \<open>ImageGenerationResult\<close> of \<open>types/index.ts\<close>.\<close>

record ImageGenerationRequest =
  gq_prompt :: string
  gq_style :: "style option"
  gq_aspectRatio :: "aspect_ratio option"
  gq_quality :: "quality option"
  gq_seed :: "int option"
  gq_model :: "string option"

record ImageGenerationResult =
  gr_success :: bool
  gr_imageUrl :: "string option"
  gr_localPath :: "string option"
  gr_prompt :: string
  gr_model :: string
  gr_cost :: "int option"
  gr_error :: "string option"

text \<open>The metadata document built at \<open>nft_create_metadata.ts:43-50\<close>.\<close>

record metadata =
  md_name :: string
  md_description :: string
  md_image :: string
  md_external_url :: "string option"
  md_attributes :: "attribute list"
  md_properties :: "(string \<times> jvalue) list"

text \<open>
  What is thrown: a zod validation error (its issues), a plain \<open>Error\<close> (its message), or
  an axios error (its message and, when the server answered, the status and the body as
  \<open>JSON.stringify\<close> prints it).
\<close>

datatype zod_issue = ZodIssue (issue_path: "string list") (issue_message: string)

datatype exn =
  ZodError "zod_issue list"
| Error string
| AxiosError string "(nat \<times> string) option"

text \<open>The file part of a multipart form: image bytes, or the serialised metadata document.\<close>

datatype payload = ImageBytes string | MetadataJson metadata

record form_data =
  fd_file :: payload
  fd_fileName :: string
  fd_fields :: "(string \<times> string) list"

text \<open>Arguments and result envelopes of the three handlers.\<close>

record upload_args =
  ua_imageUrl :: "string option"
  ua_imagePath :: "string option"
  ua_fileName :: "string option"
  ua_service :: "service option"
  ua_apiKey :: "string option"

record upload_result =
  ur_success :: bool
  ur_cid :: "string option"
  ur_ipfsUrl :: string
  ur_gatewayUrl :: string
  ur_service :: string
  ur_fileName :: string
  ur_message :: string

record metadata_args =
  ma_name :: string
  ma_description :: string
  ma_imageHash :: string
  ma_external_url :: "string option"
  ma_attributes :: "attribute list option"
  ma_properties :: "(string \<times> jvalue) list option"
  ma_service :: "service option"
  ma_apiKey :: "string option"

record metadata_result =
  mr_success :: bool
  mr_metadataCid :: "string option"
  mr_ipfsUrl :: string
  mr_gatewayUrl :: string
  mr_metadata :: metadata
  mr_service :: string
  mr_message :: string

record package_args =
  pa_prompt :: "string option"
  pa_imageUrl :: "string option"
  pa_imagePath :: "string option"
  pa_style :: "style option"
  pa_aspectRatio :: "aspect_ratio option"
  pa_quality :: "quality option"
  pa_name :: string
  pa_description :: string
  pa_external_url :: "string option"
  pa_attributes :: "attribute list option"
  pa_properties :: "(string \<times> jvalue) list option"
  pa_ipfsService :: "service option"
  pa_ipfsApiKey :: "string option"

record package_result =
  pr_success :: bool
  pr_imageCid :: string
  pr_metadataCid :: "string option"
  pr_imageUrl :: string
  pr_metadataUrl :: string
  pr_ipfsImageUrl :: string
  pr_ipfsMetadataUrl :: string
  pr_metadata :: metadata
  pr_generatedPrompt :: "string option"
  pr_service :: string
  pr_message :: string
  pr_nextSteps :: "string list"

text \<open>
  The log of a run: every call that leaves the process (image generation, HTTP GET, file
  read, HTTP POST of a form with its bearer token) and every call of the package handler
  to one of its two sibling handlers, in the order they are made.
\<close>

datatype event =
  EvGenerate ImageGenerationRequest
| EvGet string
| EvReadFile string
| EvPost string form_data string
| EvUploadStage upload_args
| EvMetadataStage metadata_args

fun external :: "event \<Rightarrow> bool" where
  "external (EvUploadStage _) = False"
| "external (EvMetadataStage _) = False"
| "external _ = True"

text \<open>
  Everything the handlers take from outside the repository's code: the URL check of zod
  and the WHATWG URL parser, the text of a zod error and of \<open>JSON.stringify\<close>, the process
  environment, the clock, the image generator, and the network and file system. An HTTP
  POST answers with the content identifier found in the response body at the place the
  service puts it (\<open>None\<close> when the field is undefined); a body in which that place cannot
  be reached throws, like any other failure of the call.
\<close>

record world =
  validUrl :: "string \<Rightarrow> bool"
  urlPathname :: "string \<Rightarrow> string"
  zodMessage :: "zod_issue list \<Rightarrow> string"
  jsonStringify :: "upload_result \<Rightarrow> string"
  processEnv :: "string \<Rightarrow> string option"
  dateNow :: nat
  generateImage :: "ImageGenerationRequest \<Rightarrow> exn + ImageGenerationResult"
  axiosGet :: "string \<Rightarrow> exn + string"
  readFileSync :: "string \<Rightarrow> exn + string"
  axiosPost :: "string \<Rightarrow> form_data \<Rightarrow> string \<Rightarrow> exn + string option"

text \<open>\<open>error.message\<close>.\<close>

fun exn_message :: "world \<Rightarrow> exn \<Rightarrow> string" where
  "exn_message w (ZodError is) = zodMessage w is"
| "exn_message w (Error m) = m"
| "exn_message w (AxiosError m r) = m"

text \<open>A template literal prints an undefined value as \<open>undefined\<close>.\<close>

definition cid_text :: "string option \<Rightarrow> string" where
  "cid_text c = (case c of None \<Rightarrow> ''undefined'' | Some s \<Rightarrow> s)"

text \<open>The issue of a \<open>z.string().url()\<close> field.\<close>

definition url_issues :: "world \<Rightarrow> string \<Rightarrow> string option \<Rightarrow> zod_issue list" where
  "url_issues w field v =
     (case v of None \<Rightarrow> []
      | Some u \<Rightarrow> (if validUrl w u then [] else [ZodIssue [field] ''Invalid url'']))"

section \<open>Service and credential selection\<close>

text \<open>
  \<^verbatim>\<open>
  const service = parsed.service || process.env.IPFS_SERVICE || 'pinata';
  const apiKey = parsed.apiKey || process.env[serviceEnvMap[service]] || '';
  \<close>
  The same four statements open \<open>handleUploadToIPFS\<close> (lines 22-35) and
  \<open>handleCreateMetadata\<close> (lines 27-40). A service name that \<open>serviceEnvMap\<close> does not
  hold gives \<open>undefined\<close>, which is printed and used as a key as \<open>undefined\<close>. Only the
  three keys the object literal writes are looked up: a service name that is a property
  every object inherits (\<open>constructor\<close>, \<open>toString\<close>) is outside the model.
\<close>

definition selectService :: "world \<Rightarrow> service option \<Rightarrow> string" where
  "selectService w sv =
     (case sv of Some s \<Rightarrow> service_name s
      | None \<Rightarrow> or_else (processEnv w ''IPFS_SERVICE'') ''pinata'')"

definition serviceEnvMap :: "string \<Rightarrow> string option" where
  "serviceEnvMap = map_of
     [(''pinata'', ''PINATA_API_KEY''),
      (''nftStorage'', ''NFT_STORAGE_API_KEY''),
      (''web3Storage'', ''WEB3_STORAGE_API_KEY'')]"

definition envKey :: "string \<Rightarrow> string" where
  "envKey sv = (case serviceEnvMap sv of None \<Rightarrow> ''undefined'' | Some k \<Rightarrow> k)"

definition resolveApiKey :: "world \<Rightarrow> string option \<Rightarrow> string \<Rightarrow> string" where
  "resolveApiKey w key sv = or_else key (or_else (processEnv w (envKey sv)) [])"

definition apiKeyRequired :: "string \<Rightarrow> string" where
  "apiKeyRequired sv =
     ''API key/JWT required for '' @ sv @ ''. Set '' @ envKey sv
       @ '' in environment or pass as apiKey parameter.''"

text \<open>
  The chain of three branches on the service name that ends both handlers
  (\<open>nft_upload_to_ipfs.ts:62-120\<close>, \<open>nft_create_metadata.ts:58-116\<close>): post the form to the
  service's endpoint, read the content identifier, build the gateway URL.
\<close>

definition postForm ::
  "world \<Rightarrow> string \<Rightarrow> form_data \<Rightarrow> string \<Rightarrow> string \<Rightarrow> (exn + string option \<times> string) \<times> event list" where
  "postForm w endpoint form apiKey gateway =
     (case axiosPost w endpoint form apiKey of
        Inl e \<Rightarrow> (Inl e, [EvPost endpoint form apiKey])
      | Inr cid \<Rightarrow> (Inr (cid, gateway @ cid_text cid), [EvPost endpoint form apiKey]))"

definition postToService ::
  "world \<Rightarrow> string \<Rightarrow> string \<Rightarrow> payload \<Rightarrow> string \<Rightarrow> (exn + string option \<times> string) \<times> event list" where
  "postToService w sv apiKey file fileName =
     (if sv = ''pinata'' then
        postForm w ''https://uploads.pinata.cloud/v3/files''
          \<lparr>fd_file = file, fd_fileName = fileName, fd_fields = [(''network'', ''public'')]\<rparr>
          apiKey ''https://gateway.pinata.cloud/ipfs/''
      else if sv = ''nftStorage'' then
        postForm w ''https://api.nft.storage/upload''
          \<lparr>fd_file = file, fd_fileName = fileName, fd_fields = []\<rparr>
          apiKey ''https://nftstorage.link/ipfs/''
      else if sv = ''web3Storage'' then
        postForm w ''https://api.web3.storage/upload''
          \<lparr>fd_file = file, fd_fileName = fileName, fd_fields = []\<rparr>
          apiKey ''https://w3s.link/ipfs/''
      else (Inl (Error (''Unsupported IPFS service: '' @ sv)), []))"

section \<open>handleUploadToIPFS\<close>

text \<open>
  \<open>schema.parse\<close> of \<open>nft_upload_to_ipfs.ts:6-14\<close>: the URL check of \<open>imageUrl\<close> and the
  refinement \<open>data.imageUrl || data.imagePath\<close>; \<open>fileName\<close> defaults to \<open>image.png\<close>.
\<close>

definition upload_issues :: "world \<Rightarrow> upload_args \<Rightarrow> zod_issue list" where
  "upload_issues w a =
     url_issues w ''imageUrl'' (ua_imageUrl a)
     @ (if truthy (ua_imageUrl a) \<or> truthy (ua_imagePath a) then []
        else [ZodIssue [] ''Either imageUrl or imagePath must be provided''])"

definition parsedFileName :: "upload_args \<Rightarrow> string" where
  "parsedFileName a = (case ua_fileName a of None \<Rightarrow> ''image.png'' | Some f \<Rightarrow> f)"

text \<open>
  Lines 41-56: the bytes and the filename. From a URL, the bytes are fetched and the last
  segment of the URL's path replaces the filename when it is not empty and holds a dot;
  from a path, the file is read and the last segment of the path replaces the filename
  unless it is empty.
\<close>

definition getImageData :: "world \<Rightarrow> upload_args \<Rightarrow> (exn + string \<times> string) \<times> event list" where
  "getImageData w a =
     (let url = or_else (ua_imageUrl a) []; path = or_else (ua_imagePath a) [] in
      if url \<noteq> [] then
        (case axiosGet w url of
           Inl e \<Rightarrow> (Inl e, [EvGet url])
         | Inr buf \<Rightarrow>
             (let urlFileName = split_pop (urlPathname w url) in
              (Inr (buf, if urlFileName \<noteq> [] \<and> CHR ''.'' \<in> set urlFileName
                         then urlFileName else parsedFileName a),
               [EvGet url])))
      else if path \<noteq> [] then
        (case readFileSync w path of
           Inl e \<Rightarrow> (Inl e, [EvReadFile path])
         | Inr buf \<Rightarrow>
             (Inr (buf, if split_pop path \<noteq> [] then split_pop path else parsedFileName a),
              [EvReadFile path]))
      else (Inl (Error ''No image source provided''), []))"

text \<open>The body of the \<open>try\<close> block, lines 20-135.\<close>

definition uploadToIPFS_try :: "world \<Rightarrow> upload_args \<Rightarrow> (exn + upload_result) \<times> event list" where
  "uploadToIPFS_try w a =
     (if upload_issues w a \<noteq> [] then (Inl (ZodError (upload_issues w a)), [])
      else
        (let sv = selectService w (ua_service a);
             apiKey = resolveApiKey w (ua_apiKey a) sv in
         if apiKey = [] then (Inl (Error (apiKeyRequired sv)), [])
         else
           (case getImageData w a of
              (Inl e, tr) \<Rightarrow> (Inl e, tr)
            | (Inr (buf, fileName), tr) \<Rightarrow>
                (case postToService w sv apiKey (ImageBytes buf) fileName of
                   (Inl e, tr') \<Rightarrow> (Inl e, tr @ tr')
                 | (Inr (cid, gatewayUrl), tr') \<Rightarrow>
                     (Inr \<lparr>ur_success = True, ur_cid = cid,
                           ur_ipfsUrl = ''ipfs://'' @ cid_text cid,
                           ur_gatewayUrl = gatewayUrl, ur_service = sv,
                           ur_fileName = fileName,
                           ur_message = ''Image uploaded to IPFS successfully''\<rparr>,
                      tr @ tr')))))"

text \<open>The \<open>catch\<close> block, lines 137-153: the message of the error that is thrown instead.\<close>

definition authFailed403 :: "string \<Rightarrow> string" where
  "authFailed403 body =
     ''Pinata authentication failed (403): Ensure your JWT has \"Files\" Write permission enabled. Response: ''
       @ body"

definition authFailed401 :: "string \<Rightarrow> string" where
  "authFailed401 body =
     ''Invalid Pinata JWT (401): Check that your JWT is correct and not expired. Response: ''
       @ body"

fun upload_catch :: "world \<Rightarrow> exn \<Rightarrow> string" where
  "upload_catch w (AxiosError m (Some (status, body))) =
     (if status = 403 then authFailed403 body
      else if status = 401 then authFailed401 body
      else ''IPFS upload failed ('' @ show_nat status @ ''): '' @ body)"
| "upload_catch w e = ''IPFS upload failed: '' @ exn_message w e"

definition handleUploadToIPFS :: "world \<Rightarrow> upload_args \<Rightarrow> (exn + upload_result) \<times> event list" where
  "handleUploadToIPFS w a =
     (case uploadToIPFS_try w a of
        (Inl e, tr) \<Rightarrow> (Inl (Error (upload_catch w e)), tr)
      | (Inr r, tr) \<Rightarrow> (Inr r, tr))"

section \<open>handleCreateMetadata\<close>

text \<open>\<open>schema.parse\<close> of \<open>nft_create_metadata.ts:10-19\<close>: the URL check of \<open>external_url\<close>.\<close>

definition metadata_issues :: "world \<Rightarrow> metadata_args \<Rightarrow> zod_issue list" where
  "metadata_issues w a = url_issues w ''external_url'' (ma_external_url a)"

text \<open>Lines 43-50: the document.\<close>

definition buildMetadata :: "metadata_args \<Rightarrow> metadata" where
  "buildMetadata a =
     \<lparr>md_name = ma_name a,
      md_description = ma_description a,
      md_image = ''ipfs://'' @ ma_imageHash a,
      md_external_url = ma_external_url a,
      md_attributes = (case ma_attributes a of None \<Rightarrow> [] | Some xs \<Rightarrow> xs),
      md_properties = (case ma_properties a of None \<Rightarrow> [] | Some ps \<Rightarrow> ps)\<rparr>"

definition createMetadata_try :: "world \<Rightarrow> metadata_args \<Rightarrow> (exn + metadata_result) \<times> event list" where
  "createMetadata_try w a =
     (if metadata_issues w a \<noteq> [] then (Inl (ZodError (metadata_issues w a)), [])
      else
        (let sv = selectService w (ma_service a);
             apiKey = resolveApiKey w (ma_apiKey a) sv in
         if apiKey = [] then (Inl (Error (apiKeyRequired sv)), [])
         else
           (let metadata = buildMetadata a in
            case postToService w sv apiKey (MetadataJson metadata) ''metadata.json'' of
              (Inl e, tr) \<Rightarrow> (Inl e, tr)
            | (Inr (metadataCid, gatewayUrl), tr) \<Rightarrow>
                (Inr \<lparr>mr_success = True, mr_metadataCid = metadataCid,
                      mr_ipfsUrl = ''ipfs://'' @ cid_text metadataCid,
                      mr_gatewayUrl = gatewayUrl, mr_metadata = metadata,
                      mr_service = sv,
                      mr_message = ''Metadata uploaded to IPFS successfully''\<rparr>,
                 tr))))"

fun metadata_catch :: "world \<Rightarrow> exn \<Rightarrow> string" where
  "metadata_catch w (AxiosError m (Some (status, body))) =
     (if status = 403 then authFailed403 body
      else if status = 401 then authFailed401 body
      else ''Metadata upload failed ('' @ show_nat status @ ''): '' @ body)"
| "metadata_catch w e = ''Metadata creation failed: '' @ exn_message w e"

definition handleCreateMetadata :: "world \<Rightarrow> metadata_args \<Rightarrow> (exn + metadata_result) \<times> event list" where
  "handleCreateMetadata w a =
     (case createMetadata_try w a of
        (Inl e, tr) \<Rightarrow> (Inl (Error (metadata_catch w e)), tr)
      | (Inr r, tr) \<Rightarrow> (Inr r, tr))"

section \<open>handleCreatePackage\<close>

text \<open>
  \<open>schema.parse\<close> of \<open>nft_create_package.ts:11-34\<close>: the URL checks of \<open>imageUrl\<close> and
  \<open>external_url\<close>, and the refinement \<open>data.prompt || data.imageUrl || data.imagePath\<close>.
\<close>

definition noSourceIssue :: zod_issue where
  "noSourceIssue = ZodIssue [] ''Must provide either prompt, imageUrl, or imagePath''"

definition package_issues :: "world \<Rightarrow> package_args \<Rightarrow> zod_issue list" where
  "package_issues w a =
     url_issues w ''imageUrl'' (pa_imageUrl a)
     @ url_issues w ''external_url'' (pa_external_url a)
     @ (if truthy (pa_prompt a) \<or> truthy (pa_imageUrl a) \<or> truthy (pa_imagePath a) then []
        else [noSourceIssue])"

text \<open>
  Step 1, lines 42-71: \<open>finalImageUrl\<close>, \<open>finalImagePath\<close> and \<open>generatedPrompt\<close>. The
  schema's defaults of \<open>aspectRatio\<close> and \<open>quality\<close> are applied to the request.
\<close>

definition generationRequest :: "package_args \<Rightarrow> ImageGenerationRequest" where
  "generationRequest a =
     \<lparr>gq_prompt = or_else (pa_prompt a) [],
      gq_style = pa_style a,
      gq_aspectRatio = Some (case pa_aspectRatio a of None \<Rightarrow> R1x1 | Some r \<Rightarrow> r),
      gq_quality = Some (case pa_quality a of None \<Rightarrow> High | Some q \<Rightarrow> q),
      gq_seed = None, gq_model = None\<rparr>"

definition resolveImage ::
  "world \<Rightarrow> package_args \<Rightarrow> (exn + string option \<times> string option \<times> string option) \<times> event list" where
  "resolveImage w a =
     (if truthy (pa_prompt a) then
        (case generateImage w (generationRequest a) of
           Inl e \<Rightarrow> (Inl e, [EvGenerate (generationRequest a)])
         | Inr res \<Rightarrow>
             (if \<not> gr_success res \<or> (\<not> truthy (gr_imageUrl res) \<and> \<not> truthy (gr_localPath res))
              then (Inl (Error (or_else (gr_error res) ''Image generation failed'')),
                    [EvGenerate (generationRequest a)])
              else (Inr (gr_imageUrl res, gr_localPath res, Some (gr_prompt res)),
                    [EvGenerate (generationRequest a)])))
      else if truthy (pa_imageUrl a) then (Inr (pa_imageUrl a, None, None), [])
      else if truthy (pa_imagePath a) then (Inr (None, pa_imagePath a, None), [])
      else (Inl (Error ''No image source provided''), []))"

text \<open>Lines 75-81: the filename of the image.\<close>

definition baseFileName :: "package_args \<Rightarrow> string" where
  "baseFileName a = or_else (Some (pa_name a)) (or_else (pa_prompt a) ''nft-image'')"

definition packageFileName :: "world \<Rightarrow> package_args \<Rightarrow> string" where
  "packageFileName w a = slug (baseFileName a) @ ''-'' @ show_nat (dateNow w) @ ''.png''"

text \<open>Lines 83-89: the arguments of the upload.\<close>

definition packageUploadArgs ::
  "world \<Rightarrow> package_args \<Rightarrow> string option \<Rightarrow> string option \<Rightarrow> upload_args" where
  "packageUploadArgs w a finalImageUrl finalImagePath =
     \<lparr>ua_imageUrl = (if truthy finalImageUrl then finalImageUrl else None),
      ua_imagePath = (if truthy finalImagePath then finalImagePath else pa_imagePath a),
      ua_fileName = Some (packageFileName w a),
      ua_service = pa_ipfsService a,
      ua_apiKey = pa_ipfsApiKey a\<rparr>"

text \<open>Lines 102-111: the arguments of the metadata stage.\<close>

definition packageMetadataArgs :: "package_args \<Rightarrow> string \<Rightarrow> metadata_args" where
  "packageMetadataArgs a imageCid =
     \<lparr>ma_name = pa_name a,
      ma_description = pa_description a,
      ma_imageHash = imageCid,
      ma_external_url = pa_external_url a,
      ma_attributes = pa_attributes a,
      ma_properties = pa_properties a,
      ma_service = pa_ipfsService a,
      ma_apiKey = pa_ipfsApiKey a\<rparr>"

text \<open>Lines 121-142: the envelope of a complete package.\<close>

definition packageResult ::
  "world \<Rightarrow> package_args \<Rightarrow> string option \<Rightarrow> upload_result \<Rightarrow> string \<Rightarrow> metadata_result \<Rightarrow> package_result" where
  "packageResult w a generatedPrompt uploadData imageCid metadataData =
     \<lparr>pr_success = True,
      pr_imageCid = imageCid,
      pr_metadataCid = mr_metadataCid metadataData,
      pr_imageUrl = ur_gatewayUrl uploadData,
      pr_metadataUrl = mr_gatewayUrl metadataData,
      pr_ipfsImageUrl = ''ipfs://'' @ imageCid,
      pr_ipfsMetadataUrl = ''ipfs://'' @ cid_text (mr_metadataCid metadataData),
      pr_metadata = mr_metadata metadataData,
      pr_generatedPrompt = generatedPrompt,
      pr_service = selectService w (pa_ipfsService a),
      pr_message = ''NFT package created successfully! Ready for minting.'',
      pr_nextSteps =
        [''Use the metadataCid or ipfsMetadataUrl for NFT minting'',
         ''The metadata contains the image reference automatically'']\<rparr>"

text \<open>Step 3, lines 96-142, once the upload handler has returned its envelope.\<close>

definition metadataStage ::
  "world \<Rightarrow> package_args \<Rightarrow> string option \<Rightarrow> upload_result \<Rightarrow> (exn + package_result) \<times> event list" where
  "metadataStage w a generatedPrompt uploadData =
     (if \<not> ur_success uploadData then
        (Inl (Error (''Image upload to IPFS failed: '' @ jsonStringify w uploadData)), [])
      else if \<not> truthy (ur_cid uploadData) then
        (Inl (Error (''No CID returned from IPFS upload. Response: '' @ jsonStringify w uploadData)), [])
      else
        (let imageCid = or_else (ur_cid uploadData) [];
             margs = packageMetadataArgs a imageCid in
         case handleCreateMetadata w margs of
           (Inl e, tr) \<Rightarrow> (Inl e, EvMetadataStage margs # tr)
         | (Inr metadataData, tr) \<Rightarrow>
             (if \<not> mr_success metadataData then
                (Inl (Error ''Metadata upload to IPFS failed''), EvMetadataStage margs # tr)
              else
                (Inr (packageResult w a generatedPrompt uploadData imageCid metadataData),
                 EvMetadataStage margs # tr))))"

text \<open>Step 2, lines 73-94, followed by step 3.\<close>

definition uploadStage ::
  "world \<Rightarrow> package_args \<Rightarrow> string option \<times> string option \<times> string option \<Rightarrow>
     (exn + package_result) \<times> event list" where
  "uploadStage w a src =
     (case src of (finalImageUrl, finalImagePath, generatedPrompt) \<Rightarrow>
        (let uargs = packageUploadArgs w a finalImageUrl finalImagePath in
         case handleUploadToIPFS w uargs of
           (Inl e, tr) \<Rightarrow> (Inl e, EvUploadStage uargs # tr)
         | (Inr uploadData, tr) \<Rightarrow>
             (case metadataStage w a generatedPrompt uploadData of
                (r, tr') \<Rightarrow> (r, EvUploadStage uargs # tr @ tr'))))"

text \<open>The body of the \<open>try\<close> block, lines 40-142.\<close>

definition createPackage_try :: "world \<Rightarrow> package_args \<Rightarrow> (exn + package_result) \<times> event list" where
  "createPackage_try w a =
     (if package_issues w a \<noteq> [] then (Inl (ZodError (package_issues w a)), [])
      else
        (case resolveImage w a of
           (Inl e, tr) \<Rightarrow> (Inl e, tr)
         | (Inr src, tr) \<Rightarrow>
             (case uploadStage w a src of (r, tr') \<Rightarrow> (r, tr @ tr'))))"

text \<open>The \<open>catch\<close> block, lines 144-146.\<close>

definition handleCreatePackage :: "world \<Rightarrow> package_args \<Rightarrow> (exn + package_result) \<times> event list" where
  "handleCreatePackage w a =
     (case createPackage_try w a of
        (Inl e, tr) \<Rightarrow> (Inl (Error (''NFT package creation failed: '' @ exn_message w e)), tr)
      | (Inr r, tr) \<Rightarrow> (Inr r, tr))"

section \<open>Auxiliary notions for the properties\<close>

text \<open>
  The shape of a slug before it is cut: only \<open>[a-z0-9]\<close> and hyphens, and no hyphen
  followed by a hyphen.
\<close>

fun tidy :: "string \<Rightarrow> bool" where
  "tidy [] = True"
| "tidy [c] = (alnum c \<or> c = CHR ''-'')"
| "tidy (c # d # cs) = ((alnum c \<or> (c = CHR ''-'' \<and> alnum d)) \<and> tidy (d # cs))"

text \<open>\<open>s.includes(sub)\<close>.\<close>

fun js_includes :: "string \<Rightarrow> string \<Rightarrow> bool" where
  "js_includes [] sub = (sub = [])"
| "js_includes (c # cs) sub = (take (length sub) (c # cs) = sub \<or> js_includes cs sub)"

text \<open>
  The image upload stage of a package run fails: the upload handler throws, or the
  envelope it returns is not a success or holds no content identifier (lines 91-99).
\<close>

definition imageUploadFails :: "world \<Rightarrow> upload_args \<Rightarrow> bool" where
  "imageUploadFails w uargs =
     (case fst (handleUploadToIPFS w uargs) of
        Inl e \<Rightarrow> True
      | Inr uploadData \<Rightarrow> \<not> ur_success uploadData \<or> \<not> truthy (ur_cid uploadData))"

text \<open>\<open>error.response.status\<close>, when the failed call was answered.\<close>

fun responseStatus :: "exn \<Rightarrow> nat option" where
  "responseStatus (AxiosError m (Some (status, body))) = Some status"
| "responseStatus _ = None"

text \<open>An event of the metadata stage: the call of its handler, or the POST of a document.\<close>

fun metadataEvent :: "event \<Rightarrow> bool" where
  "metadataEvent (EvMetadataStage _) = True"
| "metadataEvent (EvPost _ form _) = (case fd_file form of MetadataJson _ \<Rightarrow> True | ImageBytes _ \<Rightarrow> False)"
| "metadataEvent _ = False"

fun generateEvent :: "event \<Rightarrow> bool" where
  "generateEvent (EvGenerate _) = True"
| "generateEvent _ = False"

subsection \<open>Stub worlds\<close>

text \<open>
  A generator that answers with the URL \<open>http://x/fox.png\<close>, a storage service that answers
  \<open>abc123\<close> for image bytes and \<open>def456\<close> for a metadata document, and a Pinata credential
  in the environment.
\<close>

definition stubGenerated :: ImageGenerationResult where
  "stubGenerated =
     \<lparr>gr_success = True, gr_imageUrl = Some ''http://x/fox.png'', gr_localPath = None,
      gr_prompt = ''a red fox'', gr_model = ''flux'', gr_cost = None, gr_error = None\<rparr>"

definition stubPost :: "string \<Rightarrow> form_data \<Rightarrow> string \<Rightarrow> exn + string option" where
  "stubPost endpoint form apiKey =
     (case fd_file form of
        ImageBytes b \<Rightarrow> Inr (Some ''abc123'')
      | MetadataJson d \<Rightarrow> Inr (Some ''def456''))"

definition stubWorld :: world where
  "stubWorld =
     \<lparr>validUrl = (\<lambda>u. take 4 u = ''http''),
      urlPathname =
        (\<lambda>u. dropWhile (\<lambda>c. c \<noteq> CHR ''/'') (drop 2 (dropWhile (\<lambda>c. c \<noteq> CHR ''/'') u))),
      zodMessage = (\<lambda>is. concat (map issue_message is)),
      jsonStringify = (\<lambda>r. ''{...}''),
      processEnv = map_of [(''PINATA_API_KEY'', ''jwt'')],
      dateNow = 1700000000000,
      generateImage = (\<lambda>q. Inr stubGenerated),
      axiosGet = (\<lambda>u. Inr ''PNG''),
      readFileSync = (\<lambda>p. Inr ''PNG''),
      axiosPost = stubPost\<rparr>"

text \<open>The same world without any credential in the environment.\<close>

definition stubWorldNoKey :: world where
  "stubWorldNoKey = stubWorld\<lparr>processEnv := (\<lambda>k. None)\<rparr>"

text \<open>The storage service answers every POST with HTTP 403.\<close>

definition stubWorldForbidden :: world where
  "stubWorldForbidden =
     stubWorld\<lparr>axiosPost :=
       (\<lambda>endpoint form apiKey. Inl (AxiosError ''Request failed with status code 403'' (Some (403, ''{}''))))\<rparr>"

text \<open>The host of the image answers the GET with HTTP 403.\<close>

definition stubWorldGetForbidden :: world where
  "stubWorldGetForbidden =
     stubWorld\<lparr>axiosGet :=
       (\<lambda>u. Inl (AxiosError ''Request failed with status code 403'' (Some (403, ''denied''))))\<rparr>"

text \<open>The storage service stores the image and answers the POST of the document with HTTP 403.\<close>

definition stubWorldMetadataForbidden :: world where
  "stubWorldMetadataForbidden =
     stubWorld\<lparr>axiosPost :=
       (\<lambda>endpoint form apiKey.
          case fd_file form of
            ImageBytes b \<Rightarrow> Inr (Some ''abc123'')
          | MetadataJson d \<Rightarrow>
              Inl (AxiosError ''Request failed with status code 403'' (Some (403, ''{}''))))\<rparr>"

text \<open>The storage service stores the image; the POST of the document gets no answer.\<close>

definition stubWorldMetadataDown :: world where
  "stubWorldMetadataDown =
     stubWorld\<lparr>axiosPost :=
       (\<lambda>endpoint form apiKey.
          case fd_file form of
            ImageBytes b \<Rightarrow> Inr (Some ''abc123'')
          | MetadataJson d \<Rightarrow> Inl (AxiosError ''Network Error'' None))\<rparr>"

text \<open>Requests used as examples.\<close>

definition foxRequest :: package_args where
  "foxRequest =
     \<lparr>pa_prompt = Some ''a red fox'', pa_imageUrl = None, pa_imagePath = None,
      pa_style = None, pa_aspectRatio = None, pa_quality = None,
      pa_name = ''Fox #1'', pa_description = ''desc'', pa_external_url = None,
      pa_attributes = None, pa_properties = None,
      pa_ipfsService = None, pa_ipfsApiKey = None\<rparr>"

definition artRequest :: package_args where
  "artRequest = foxRequest\<lparr>pa_prompt := None, pa_imageUrl := Some ''https://mysite.com/art.png''\<rparr>"

definition emptyRequest :: package_args where
  "emptyRequest = foxRequest\<lparr>pa_prompt := Some []\<rparr>"

definition mixedRequest :: package_args where
  "mixedRequest =
     foxRequest\<lparr>pa_imageUrl := Some ''https://mysite.com/art.png'',
                 pa_imagePath := Some ''/tmp/art/dragon.png''\<rparr>"

definition urlAndPathRequest :: package_args where
  "urlAndPathRequest = artRequest\<lparr>pa_imagePath := Some ''/tmp/art/dragon.png''\<rparr>"

definition badUrlRequest :: package_args where
  "badUrlRequest = foxRequest\<lparr>pa_imageUrl := Some ''not a url''\<rparr>"

definition urlUpload :: upload_args where
  "urlUpload =
     \<lparr>ua_imageUrl = Some ''https://example.com/art/dragon.jpg'', ua_imagePath = None,
      ua_fileName = Some ''mine.png'', ua_service = Some Pinata, ua_apiKey = None\<rparr>"

definition plainUrlUpload :: upload_args where
  "plainUrlUpload = urlUpload\<lparr>ua_imageUrl := Some ''https://example.com/download''\<rparr>"

definition bothUpload :: upload_args where
  "bothUpload = plainUrlUpload\<lparr>ua_imagePath := Some ''/tmp/art/dragon.png''\<rparr>"

definition pathUpload :: upload_args where
  "pathUpload =
     \<lparr>ua_imageUrl = None, ua_imagePath = Some ''/tmp/art/dragon.png'',
      ua_fileName = Some ''mine.png'', ua_service = Some Pinata, ua_apiKey = None\<rparr>"

definition dragonMetadata :: metadata_args where
  "dragonMetadata =
     \<lparr>ma_name = ''Dragon #1'', ma_description = ''Epic cyberpunk dragon'',
      ma_imageHash = ''QmXxx'', ma_external_url = None, ma_attributes = None,
      ma_properties = None, ma_service = None, ma_apiKey = None\<rparr>"

section \<open>Lemmas about the slug\<close>

lemma alnum_hyphen: "\<not> alnum (CHR ''-'')"
  by (simp add: alnum_def lower_chars_def digit_chars_def)

lemma alnum_not_upper: "alnum c \<Longrightarrow> c \<notin> set upper_chars"
  unfolding alnum_def lower_chars_def digit_chars_def upper_chars_def by auto

lemma toLowerChar_not_upper:
  assumes "c \<notin> set upper_chars"
  shows "toLowerChar c = c"
proof -
  have "length upper_chars = length lower_chars"
    by (simp add: upper_chars_def lower_chars_def)
  then have "map fst (zip upper_chars lower_chars) = upper_chars"
    by (rule map_fst_zip)
  then have "fst ` set (zip upper_chars lower_chars) = set upper_chars"
    by (metis set_map)
  with assms have "map_of (zip upper_chars lower_chars) c = None"
    by (simp add: map_of_eq_None_iff)
  then show ?thesis by (simp add: toLowerChar_def)
qed

lemma toLowerChar_alnum: "alnum c \<Longrightarrow> toLowerChar c = c"
  by (rule toLowerChar_not_upper) (rule alnum_not_upper)

lemma toLowerChar_hyphen: "toLowerChar (CHR ''-'') = CHR ''-''"
  by (rule toLowerChar_not_upper) (simp add: upper_chars_def)

lemma tidy_chars: "tidy t \<Longrightarrow> c \<in> set t \<Longrightarrow> alnum c \<or> c = CHR ''-''"
  by (induction t rule: tidy.induct) auto

lemma tidy_lower: "tidy t \<Longrightarrow> toLowerCase t = t"
  unfolding toLowerCase_def
  by (rule map_idI) (auto dest: tidy_chars simp: toLowerChar_alnum toLowerChar_hyphen)

lemma tidy_Cons_alnum: "alnum c \<Longrightarrow> tidy (c # cs) = tidy cs"
  by (cases cs) auto

lemma tidy_Cons_hyphen: "tidy (CHR ''-'' # cs) = (tidy cs \<and> (cs = [] \<or> alnum (hd cs)))"
  by (cases cs) (auto simp: alnum_hyphen)

lemma replace_runs_head: "replace_runs xs \<noteq> [] \<Longrightarrow> xs \<noteq> [] \<and> (alnum (hd xs) \<longrightarrow> hd (replace_runs xs) = hd xs)"
  by (cases xs) auto

lemma replace_runs_Nil: "replace_runs xs = [] \<longleftrightarrow> xs = []"
  by (cases xs) auto

lemma tidy_replace_runs: "tidy (replace_runs s)"
proof (induction s rule: replace_runs.induct)
  case 1
  show ?case by simp
next
  case (2 c cs)
  show ?case
  proof (cases "alnum c")
    case True
    with 2 show ?thesis by (simp add: tidy_Cons_alnum)
  next
    case False
    define d where "d = dropWhile (\<lambda>x. \<not> alnum x) cs"
    have t: "tidy (replace_runs d)" using 2 False by (simp add: d_def)
    have "replace_runs d = [] \<or> alnum (hd (replace_runs d))"
    proof (cases d)
      case Nil
      then show ?thesis by simp
    next
      case (Cons x xs)
      then have "d \<noteq> []" by simp
      then have "alnum (hd d)" unfolding d_def using hd_dropWhile [of "\<lambda>x. \<not> alnum x" cs] by blast
      with Cons have "alnum x" by simp
      then have "replace_runs (x # xs) = x # replace_runs xs" by simp
      with Cons \<open>alnum x\<close> show ?thesis by simp
    qed
    with t False show ?thesis by (simp add: tidy_Cons_hyphen d_def)
  qed
qed

lemma tidy_replace_id: "tidy t \<Longrightarrow> replace_runs t = t"
proof (induction t rule: tidy.induct)
  case 1
  show ?case by simp
next
  case (2 c)
  then show ?case by auto
next
  case (3 c d cs)
  then show ?case by (auto simp: alnum_hyphen)
qed

lemma tidy_take: "tidy t \<Longrightarrow> tidy (take n t)"
proof (induction t arbitrary: n rule: tidy.induct)
  case 1
  show ?case by simp
next
  case (2 c)
  then show ?case by (cases n) auto
next
  case (3 c d cs)
  show ?case
  proof (cases n)
    case 0
    then show ?thesis by simp
  next
    case (Suc m)
    have "tidy (take m (d # cs))" using 3 by simp
    with 3 Suc show ?thesis by (cases m) auto
  qed
qed

lemma tidy_tl: "tidy (c # cs) \<Longrightarrow> tidy cs"
  by (cases cs) auto

lemma tidy_drop: "tidy t \<Longrightarrow> tidy (drop n t)"
proof (induction n arbitrary: t)
  case 0
  then show ?case by simp
next
  case (Suc n)
  then show ?case by (cases t) (auto dest: tidy_tl)
qed

lemma rev_dropWhile_rev_take: "rev (dropWhile P (rev t)) = take (length t - length (takeWhile P (rev t))) t"
  by (simp add: dropWhile_eq_drop rev_drop)

lemma strip_hyphens_eq:
  "strip_hyphens s = (let d = dropWhile (\<lambda>x. x = CHR ''-'') s in take (length d - length (takeWhile (\<lambda>x. x = CHR ''-'') (rev d))) d)"
  by (simp add: strip_hyphens_def rev_dropWhile_rev_take Let_def)

lemma tidy_strip: "tidy t \<Longrightarrow> tidy (strip_hyphens t)"
  by (simp add: strip_hyphens_eq Let_def dropWhile_eq_drop tidy_take tidy_drop)

lemma tidy_slug: "tidy (slug s)"
  by (simp add: slug_def tidy_take tidy_strip tidy_replace_runs)

lemma length_slug: "length (slug s) \<le> 50"
  by (simp add: slug_def)

lemma strip_hyphens_id:
  assumes "t = [] \<or> (hd t \<noteq> CHR ''-'' \<and> last t \<noteq> CHR ''-'')"
  shows "strip_hyphens t = t"
proof (cases t)
  case Nil
  then show ?thesis by (simp add: strip_hyphens_def)
next
  case (Cons c cs)
  with assms have h: "c \<noteq> CHR ''-''" and l: "last t \<noteq> CHR ''-''" by auto
  from h Cons have d: "dropWhile (\<lambda>x. x = CHR ''-'') t = t" by simp
  from Cons obtain x xs where r: "rev t = x # xs" by (cases "rev t") auto
  have "hd (rev t) = last t" using Cons by (simp add: hd_rev)
  with r have "x = last t" by simp
  with l have "dropWhile (\<lambda>x. x = CHR ''-'') (x # xs) = x # xs" by simp
  with r have "dropWhile (\<lambda>x. x = CHR ''-'') (rev t) = rev t" by simp
  with d show ?thesis by (simp add: strip_hyphens_def)
qed

lemma strip_hyphens_last:
  "strip_hyphens t = [] \<or> last (strip_hyphens t) \<noteq> CHR ''-''"
proof -
  let ?r = "rev (dropWhile (\<lambda>x. x = CHR ''-'') t)"
  have "dropWhile (\<lambda>x. x = CHR ''-'') ?r = [] \<or> hd (dropWhile (\<lambda>x. x = CHR ''-'') ?r) \<noteq> CHR ''-''"
    using hd_dropWhile [of "\<lambda>x. x = CHR ''-''" ?r] by auto
  then show ?thesis
    by (auto simp: strip_hyphens_def last_rev)
qed

lemma strip_hyphens_hd:
  "strip_hyphens t = [] \<or> hd (strip_hyphens t) \<noteq> CHR ''-''"
proof -
  let ?d = "dropWhile (\<lambda>x. x = CHR ''-'') t"
  have a: "?d = [] \<or> hd ?d \<noteq> CHR ''-''"
    using hd_dropWhile [of "\<lambda>x. x = CHR ''-''" t] by auto
  have "strip_hyphens t = take (length ?d - length (takeWhile (\<lambda>x. x = CHR ''-'') (rev ?d))) ?d"
    by (simp add: strip_hyphens_eq Let_def)
  then obtain k where k: "strip_hyphens t = take k ?d" by blast
  show ?thesis
  proof (cases "strip_hyphens t = []")
    case True
    then show ?thesis by simp
  next
    case False
    with k have "k \<noteq> 0" "?d \<noteq> []" by auto
    then have "hd (take k ?d) = hd ?d" by (cases k; cases ?d) auto
    with a k \<open>?d \<noteq> []\<close> show ?thesis by simp
  qed
qed

lemma length_strip_hyphens: "length (strip_hyphens t) \<le> length t"
proof -
  have "length (strip_hyphens t) \<le> length (dropWhile (\<lambda>x. x = CHR ''-'') t)"
    by (simp add: strip_hyphens_eq Let_def)
  also have "\<dots> \<le> length t" by (rule length_dropWhile_le)
  finally show ?thesis .
qed

lemma slug_hd: "slug s = [] \<or> hd (slug s) \<noteq> CHR ''-''"
proof (cases "slug s = []")
  case True
  then show ?thesis by simp
next
  case False
  let ?r = "strip_hyphens (replace_runs (toLowerCase s))"
  from False have "?r \<noteq> []" by (auto simp: slug_def)
  then have "hd (take 50 ?r) = hd ?r" by (cases ?r) auto
  with strip_hyphens_hd [of "replace_runs (toLowerCase s)"] \<open>?r \<noteq> []\<close>
  show ?thesis by (simp add: slug_def)
qed

lemma slug_idem_iff: "slug (slug s) = slug s \<longleftrightarrow> (slug s = [] \<or> last (slug s) \<noteq> CHR ''-'')"
proof -
  let ?t = "slug s"
  have pre: "replace_runs (toLowerCase ?t) = ?t"
    by (simp add: tidy_lower tidy_replace_id tidy_slug)
  then have eq: "slug ?t = take 50 (strip_hyphens ?t)" by (simp add: slug_def)
  show ?thesis
  proof
    assume a: "slug ?t = ?t"
    with eq have "?t = take 50 (strip_hyphens ?t)" by simp
    moreover have "length (strip_hyphens ?t) \<le> 50"
      using length_strip_hyphens [of ?t] length_slug [of s] by linarith
    ultimately have "?t = strip_hyphens ?t" by simp
    with strip_hyphens_last [of ?t] show "?t = [] \<or> last ?t \<noteq> CHR ''-''" by metis
  next
    assume "?t = [] \<or> last ?t \<noteq> CHR ''-''"
    with slug_hd [of s] have "strip_hyphens ?t = ?t" by (intro strip_hyphens_id) auto
    with eq length_slug [of s] show "slug ?t = ?t" by simp
  qed
qed

section \<open>Lemmas about the handlers\<close>

lemma split_not_Nil: "split c s \<noteq> []"
  by (induction s) (auto split: list.splits)

lemma tl_split_Nil: "tl (split c s) = [] \<longleftrightarrow> c \<notin> set s"
  by (induction s) (auto simp: split_not_Nil split: list.splits)

lemma last_split: "last (split c s) = rev (takeWhile (\<lambda>x. x \<noteq> c) (rev s))"
proof (induction s)
  case Nil
  show ?case by simp
next
  case (Cons x xs)
  obtain h hs where hs: "split c xs = h # hs"
    using split_not_Nil [of c xs] by (cases "split c xs") auto
  show ?case
  proof (cases "x = c")
    case True
    with Cons show ?thesis by (simp add: split_not_Nil takeWhile_tail)
  next
    case False
    note xc = this
    show ?thesis
    proof (cases "c \<in> set xs")
      case True
      with hs have "hs \<noteq> []" using tl_split_Nil [of c xs] by simp
      with hs xc have "last (split c (x # xs)) = last (split c xs)" by simp
      moreover have "takeWhile (\<lambda>x. x \<noteq> c) (rev xs @ [x]) = takeWhile (\<lambda>x. x \<noteq> c) (rev xs)"
        using True by (simp add: takeWhile_append1)
      ultimately show ?thesis using Cons by simp
    next
      case False
      with hs have e: "hs = []" using tl_split_Nil [of c xs] by simp
      have "takeWhile (\<lambda>x. x \<noteq> c) (rev xs) = rev xs"
        using False by (auto simp: takeWhile_eq_all_conv)
      with Cons hs e have "h = xs" by simp
      with hs e xc have l: "last (split c (x # xs)) = x # xs" by simp
      have "takeWhile (\<lambda>x. x \<noteq> c) (rev xs @ [x]) = rev xs @ [x]"
        using False xc by (auto simp: takeWhile_eq_all_conv)
      then have "rev (takeWhile (\<lambda>x. x \<noteq> c) (rev (x # xs))) = rev (rev xs @ [x])"
        by (simp only: rev.simps)
      also have "\<dots> = x # xs" by simp
      finally show ?thesis using l by (simp only:)
    qed
  qed
qed

lemma split_pop_suffix: "split_pop p = rev (takeWhile (\<lambda>x. x \<noteq> CHR ''/'') (rev p))"
  by (simp add: split_pop_def last_split)

lemma split_pop_empty_iff: "p \<noteq> [] \<Longrightarrow> split_pop p = [] \<longleftrightarrow> last p = CHR ''/''"
  by (cases "rev p") (auto simp: split_pop_suffix last_rev takeWhile_eq_Nil_iff dest: arg_cong [of "rev p" _ rev])

lemma postToService_events:
  "postToService w sv k f n = (r, tr) \<Longrightarrow> e \<in> set tr
   \<Longrightarrow> \<exists>ep form. e = EvPost ep form k \<and> fd_file form = f \<and> fd_fileName form = n"
  by (auto simp: postToService_def postForm_def split: if_splits sum.splits)

lemma getImageData_events:
  "getImageData w a = (r, tr) \<Longrightarrow> e \<in> set tr \<Longrightarrow> (\<exists>u. e = EvGet u) \<or> (\<exists>p. e = EvReadFile p)"
  by (auto simp: getImageData_def Let_def split: if_splits sum.splits)

lemma uploadToIPFS_try_events:
  assumes "uploadToIPFS_try w a = (r, tr)" and "e \<in> set tr"
  shows "(\<exists>u. e = EvGet u) \<or> (\<exists>p. e = EvReadFile p)
         \<or> (\<exists>ep form k b. e = EvPost ep form k \<and> fd_file form = ImageBytes b)"
proof -
  define sv where "sv = selectService w (ua_service a)"
  define k where "k = resolveApiKey w (ua_apiKey a) sv"
  obtain ri ti where g: "getImageData w a = (ri, ti)" by (cases "getImageData w a")
  show ?thesis
  proof (cases ri)
    case (Inl x)
    with assms(1) g have "tr = [] \<or> tr = ti"
      by (auto simp: uploadToIPFS_try_def Let_def split: if_splits)
    with assms(2) getImageData_events [OF g] show ?thesis by auto
  next
    case (Inr bf)
    obtain buf fn where bf: "bf = (buf, fn)" by (cases bf)
    obtain rp tp where p: "postToService w sv k (ImageBytes buf) fn = (rp, tp)"
      by (cases "postToService w sv k (ImageBytes buf) fn")
    from assms(1) g Inr bf p have "tr = [] \<or> tr = ti @ tp"
      by (auto simp: uploadToIPFS_try_def Let_def sv_def k_def split: if_splits sum.splits)
    with assms(2) have "e \<in> set ti \<or> e \<in> set tp" by auto
    then show ?thesis
    proof
      assume "e \<in> set ti"
      with getImageData_events [OF g] show ?thesis by auto
    next
      assume "e \<in> set tp"
      with postToService_events [OF p] show ?thesis by blast
    qed
  qed
qed

lemma getImageData_sources:
  assumes "getImageData w a = (r, tr)"
  shows "(EvGet u \<in> set tr \<longrightarrow> ua_imageUrl a = Some u \<and> u \<noteq> [])
       \<and> (EvReadFile p \<in> set tr \<longrightarrow> \<not> truthy (ua_imageUrl a) \<and> ua_imagePath a = Some p)"
  using assms
  by (auto simp: getImageData_def Let_def or_else_def truthy_def
      split: if_splits sum.splits option.splits)

lemma upload_sources:
  assumes "handleUploadToIPFS w a = (r, tr)"
  shows "(EvGet u \<in> set tr \<longrightarrow> ua_imageUrl a = Some u \<and> u \<noteq> [])
       \<and> (EvReadFile p \<in> set tr \<longrightarrow> \<not> truthy (ua_imageUrl a) \<and> ua_imagePath a = Some p)"
proof -
  define sv where "sv = selectService w (ua_service a)"
  define k where "k = resolveApiKey w (ua_apiKey a) sv"
  obtain ri ti where g: "getImageData w a = (ri, ti)" by (cases "getImageData w a")
  have "\<exists>tp. (tr = [] \<or> tr = ti \<or> tr = ti @ tp) \<and> (\<forall>e \<in> set tp. \<exists>ep form k. e = EvPost ep form k)"
  proof (cases ri)
    case (Inl x)
    with assms g have "tr = [] \<or> tr = ti"
      by (auto simp: handleUploadToIPFS_def uploadToIPFS_try_def Let_def split: if_splits)
    then show ?thesis by (intro exI [of _ "[]"]) auto
  next
    case (Inr bf)
    obtain buf fn where bf: "bf = (buf, fn)" by (cases bf)
    obtain rp tp where p: "postToService w sv k (ImageBytes buf) fn = (rp, tp)"
      by (cases "postToService w sv k (ImageBytes buf) fn")
    from assms g Inr bf p have "tr = [] \<or> tr = ti @ tp"
      by (auto simp: handleUploadToIPFS_def uploadToIPFS_try_def Let_def sv_def k_def
          split: if_splits sum.splits)
    moreover have "\<forall>e \<in> set tp. \<exists>ep form k. e = EvPost ep form k"
      using postToService_events [OF p] by blast
    ultimately show ?thesis by blast
  qed
  then obtain tp where c: "tr = [] \<or> tr = ti \<or> tr = ti @ tp"
    and tp: "\<forall>e \<in> set tp. \<exists>ep form k. e = EvPost ep form k" by blast
  from tp have n: "EvGet u \<notin> set tp" "EvReadFile p \<notin> set tp" by auto
  from c n have "EvGet u \<in> set tr \<longrightarrow> EvGet u \<in> set ti"
    and "EvReadFile p \<in> set tr \<longrightarrow> EvReadFile p \<in> set ti" by auto
  with getImageData_sources [OF g, of u p] show ?thesis by blast
qed

lemma upload_events:
  assumes "handleUploadToIPFS w a = (r, tr)" and "e \<in> set tr"
  shows "(\<exists>u. e = EvGet u) \<or> (\<exists>p. e = EvReadFile p)
         \<or> (\<exists>ep form k b. e = EvPost ep form k \<and> fd_file form = ImageBytes b)"
proof -
  obtain r' where "uploadToIPFS_try w a = (r', tr)"
    using assms(1) by (auto simp: handleUploadToIPFS_def split: prod.splits sum.splits)
  from this assms(2) show ?thesis by (rule uploadToIPFS_try_events)
qed

lemma metadata_events:
  assumes "handleCreateMetadata w m = (r, tr)" and "e \<in> set tr"
  shows "\<exists>ep form k. e = EvPost ep form k \<and> fd_file form = MetadataJson (buildMetadata m)
           \<and> fd_fileName form = ''metadata.json''"
proof -
  define sv where "sv = selectService w (ma_service m)"
  define k where "k = resolveApiKey w (ma_apiKey m) sv"
  obtain rp tp where p: "postToService w sv k (MetadataJson (buildMetadata m)) ''metadata.json'' = (rp, tp)"
    by (cases "postToService w sv k (MetadataJson (buildMetadata m)) ''metadata.json''")
  from assms(1) p have "tr = [] \<or> tr = tp"
    by (auto simp: handleCreateMetadata_def createMetadata_try_def Let_def sv_def k_def
        split: if_splits sum.splits)
  with assms(2) have "e \<in> set tp" by auto
  with postToService_events [OF p] show ?thesis by blast
qed

lemma resolveImage_events:
  "resolveImage w a = (r, tr) \<Longrightarrow> e \<in> set tr \<Longrightarrow> e = EvGenerate (generationRequest a) \<and> truthy (pa_prompt a)"
  by (auto simp: resolveImage_def split: if_splits sum.splits)

lemma upload_success:
  assumes "handleUploadToIPFS w a = (Inr up, tr)"
  shows "ur_success up \<and> ur_gatewayUrl up \<noteq> [] \<and> hd (ur_gatewayUrl up) = CHR ''h''"
  using assms
  by (auto simp: handleUploadToIPFS_def uploadToIPFS_try_def postToService_def postForm_def Let_def
      split: if_splits sum.splits prod.splits)

lemma metadata_success:
  assumes "handleCreateMetadata w m = (Inr md, tr)"
  shows "mr_success md \<and> mr_metadata md = buildMetadata m
         \<and> (\<exists>ep form k. tr = [EvPost ep form k] \<and> fd_file form = MetadataJson (buildMetadata m)
              \<and> fd_fileName form = ''metadata.json'')"
  using assms
  by (auto simp: handleCreateMetadata_def createMetadata_try_def postToService_def postForm_def Let_def
      split: if_splits sum.splits prod.splits)

lemma upload_error:
  "handleUploadToIPFS w u = (Inl e, tr) \<Longrightarrow> \<exists>x. e = Error (upload_catch w x)"
  by (auto simp: handleUploadToIPFS_def split: prod.splits sum.splits)

lemma metadata_error:
  "handleCreateMetadata w m = (Inl e, tr) \<Longrightarrow> \<exists>x. e = Error (metadata_catch w x)"
  by (auto simp: handleCreateMetadata_def split: prod.splits sum.splits)

lemma upload_catch_shape:
  "take 18 (upload_catch w x) = ''IPFS upload failed''
   \<or> (\<exists>body. upload_catch w x = authFailed403 body)
   \<or> (\<exists>body. upload_catch w x = authFailed401 body)"
  by (cases "(w, x)" rule: upload_catch.cases) auto

lemma package_run:
  assumes "package_issues w a = []" and "resolveImage w a = (Inr (furl, fpath, gp), tr1)"
  shows "handleCreatePackage w a =
           (case uploadStage w a (furl, fpath, gp) of
              (Inl e, tr') \<Rightarrow> (Inl (Error (''NFT package creation failed: '' @ exn_message w e)), tr1 @ tr')
            | (Inr r, tr') \<Rightarrow> (Inr r, tr1 @ tr'))"
  using assms
  by (simp add: handleCreatePackage_def createPackage_try_def split: prod.splits sum.splits)

lemma uploadStage_raises:
  assumes "handleUploadToIPFS w (packageUploadArgs w a furl fpath) = (Inl e, tr2)"
  shows "uploadStage w a (furl, fpath, gp) = (Inl e, EvUploadStage (packageUploadArgs w a furl fpath) # tr2)"
  using assms by (simp add: uploadStage_def)

lemma uploadStage_no_cid:
  assumes "handleUploadToIPFS w (packageUploadArgs w a furl fpath) = (Inr up, tr2)"
    and "\<not> truthy (ur_cid up)"
  shows "uploadStage w a (furl, fpath, gp) =
           (Inl (Error (''No CID returned from IPFS upload. Response: '' @ jsonStringify w up)),
            EvUploadStage (packageUploadArgs w a furl fpath) # tr2)"
  using assms upload_success [OF assms(1)] by (simp add: uploadStage_def metadataStage_def)

lemma uploadStage_metadata:
  assumes "handleUploadToIPFS w (packageUploadArgs w a furl fpath) = (Inr up, tr2)"
    and "ur_cid up = Some cid" and "cid \<noteq> []"
    and "handleCreateMetadata w (packageMetadataArgs a cid) = (rm, tr3)"
  shows "uploadStage w a (furl, fpath, gp) =
           (case rm of Inl e \<Rightarrow> Inl e | Inr md \<Rightarrow> Inr (packageResult w a gp up cid md),
            EvUploadStage (packageUploadArgs w a furl fpath) # tr2
              @ EvMetadataStage (packageMetadataArgs a cid) # tr3)"
proof (cases rm)
  case (Inl e)
  with assms upload_success [OF assms(1)] show ?thesis
    by (simp add: uploadStage_def metadataStage_def truthy_def or_else_def)
next
  case (Inr md)
  with assms(4) have "mr_success md" using metadata_success by blast
  with Inr assms upload_success [OF assms(1)] show ?thesis
    by (simp add: uploadStage_def metadataStage_def truthy_def or_else_def)
qed

lemma package_success:
  assumes "handleCreatePackage w a = (Inr r, tr)"
  shows "\<exists>furl fpath gp tr1 up tr2 cid md tr3.
           package_issues w a = []
         \<and> resolveImage w a = (Inr (furl, fpath, gp), tr1)
         \<and> handleUploadToIPFS w (packageUploadArgs w a furl fpath) = (Inr up, tr2)
         \<and> ur_cid up = Some cid \<and> cid \<noteq> []
         \<and> handleCreateMetadata w (packageMetadataArgs a cid) = (Inr md, tr3)
         \<and> r = packageResult w a gp up cid md
         \<and> tr = tr1 @ EvUploadStage (packageUploadArgs w a furl fpath) # tr2
                  @ EvMetadataStage (packageMetadataArgs a cid) # tr3"
proof -
  from assms have pi: "package_issues w a = []"
    by (auto simp: handleCreatePackage_def createPackage_try_def split: if_splits)
  obtain rr tr1 where rr: "resolveImage w a = (rr, tr1)" by (cases "resolveImage w a")
  from assms pi rr obtain src where src: "rr = Inr src"
    by (cases rr) (auto simp: handleCreatePackage_def createPackage_try_def)
  obtain furl fpath gp where s: "src = (furl, fpath, gp)" by (cases src)
  let ?u = "packageUploadArgs w a furl fpath"
  have run: "handleCreatePackage w a =
           (case uploadStage w a (furl, fpath, gp) of
              (Inl e, tr') \<Rightarrow> (Inl (Error (''NFT package creation failed: '' @ exn_message w e)), tr1 @ tr')
            | (Inr r, tr') \<Rightarrow> (Inr r, tr1 @ tr'))"
    using pi rr src s by (intro package_run) auto
  obtain ru tr2 where ru: "handleUploadToIPFS w ?u = (ru, tr2)" by (cases "handleUploadToIPFS w ?u")
  show ?thesis
  proof (cases ru)
    case (Inl e)
    with ru have "uploadStage w a (furl, fpath, gp) = (Inl e, EvUploadStage ?u # tr2)"
      by (simp add: uploadStage_raises)
    with run assms show ?thesis by simp
  next
    case (Inr up)
    show ?thesis
    proof (cases "truthy (ur_cid up)")
      case False
      with ru Inr have "uploadStage w a (furl, fpath, gp) =
           (Inl (Error (''No CID returned from IPFS upload. Response: '' @ jsonStringify w up)),
            EvUploadStage ?u # tr2)"
        by (simp add: uploadStage_no_cid)
      with run assms show ?thesis by simp
    next
      case True
      then obtain cid where cid: "ur_cid up = Some cid" "cid \<noteq> []"
        by (auto simp: truthy_def split: option.splits)
      obtain rm tr3 where rm: "handleCreateMetadata w (packageMetadataArgs a cid) = (rm, tr3)"
        by (cases "handleCreateMetadata w (packageMetadataArgs a cid)")
      have us: "uploadStage w a (furl, fpath, gp) =
           (case rm of Inl e \<Rightarrow> Inl e | Inr md \<Rightarrow> Inr (packageResult w a gp up cid md),
            EvUploadStage ?u # tr2 @ EvMetadataStage (packageMetadataArgs a cid) # tr3)"
        using ru Inr cid rm by (intro uploadStage_metadata) auto
      show ?thesis
      proof (cases rm)
        case (Inl e)
        with us run assms show ?thesis by simp
      next
        case (Inr md)
        with us run assms have "r = packageResult w a gp up cid md"
          and "tr = tr1 @ EvUploadStage ?u # tr2 @ EvMetadataStage (packageMetadataArgs a cid) # tr3"
          by auto
        with pi rr src s ru \<open>ru = Inr up\<close> cid rm Inr show ?thesis by blast
      qed
    qed
  qed
qed

lemma upload_ignores_path:
  assumes "truthy (ua_imageUrl u)"
  shows "handleUploadToIPFS w (u\<lparr>ua_imagePath := p\<rparr>) = handleUploadToIPFS w u"
proof -
  have i: "upload_issues w (u\<lparr>ua_imagePath := p\<rparr>) = upload_issues w u"
    using assms by (simp add: upload_issues_def)
  from assms have u: "or_else (ua_imageUrl u) [] \<noteq> []"
    by (auto simp: truthy_def or_else_def split: option.splits)
  have pf: "parsedFileName (u\<lparr>ua_imagePath := p\<rparr>) = parsedFileName u"
    by (simp add: parsedFileName_def)
  from u have g: "getImageData w (u\<lparr>ua_imagePath := p\<rparr>) = getImageData w u"
    unfolding getImageData_def pf by simp
  have "uploadToIPFS_try w (u\<lparr>ua_imagePath := p\<rparr>) = uploadToIPFS_try w u"
    unfolding uploadToIPFS_try_def i g by simp
  then show ?thesis by (simp add: handleUploadToIPFS_def)
qed

lemma metadataStage_cong:
  assumes "packageMetadataArgs a' = packageMetadataArgs a" and "pa_ipfsService a' = pa_ipfsService a"
  shows "metadataStage w a' gp up = metadataStage w a gp up"
proof -
  have pr: "packageResult w a' = packageResult w a"
    by (intro ext) (simp add: packageResult_def assms(2))
  show ?thesis unfolding metadataStage_def assms(1) pr by (rule refl)
qed

lemma uploadStage_cong:
  assumes "handleUploadToIPFS w (packageUploadArgs w a' furl fpath)
             = handleUploadToIPFS w (packageUploadArgs w a furl fpath)"
    and "packageMetadataArgs a' = packageMetadataArgs a" and "pa_ipfsService a' = pa_ipfsService a"
  shows "fst (uploadStage w a' (furl, fpath, gp)) = fst (uploadStage w a (furl, fpath, gp))
       \<and> filter external (snd (uploadStage w a' (furl, fpath, gp)))
           = filter external (snd (uploadStage w a (furl, fpath, gp)))"
proof -
  obtain ru tr2 where ru: "handleUploadToIPFS w (packageUploadArgs w a furl fpath) = (ru, tr2)"
    by (cases "handleUploadToIPFS w (packageUploadArgs w a furl fpath)")
  with assms(1) have ru': "handleUploadToIPFS w (packageUploadArgs w a' furl fpath) = (ru, tr2)"
    by simp
  show ?thesis
  proof (cases ru)
    case (Inl e)
    with ru ru' show ?thesis by (simp add: uploadStage_def)
  next
    case (Inr up)
    obtain rm tr3 where rm: "metadataStage w a gp up = (rm, tr3)"
      by (cases "metadataStage w a gp up")
    have rm': "metadataStage w a' gp up = (rm, tr3)"
      using metadataStage_cong [OF assms(2,3), of w gp up] rm by simp
    from Inr ru ru' rm rm' show ?thesis by (simp add: uploadStage_def)
  qed
qed

lemma resolveImage_sources:
  "resolveImage w a = (Inr (furl, fpath, gp), tr) \<Longrightarrow> truthy furl \<or> truthy fpath"
  by (auto simp: resolveImage_def split: if_splits sum.splits)

lemma package_cong:
  assumes "package_issues w a = []" and "package_issues w a' = []"
    and "resolveImage w a' = resolveImage w a"
    and "\<And>furl fpath gp tr. resolveImage w a = (Inr (furl, fpath, gp), tr) \<Longrightarrow>
           handleUploadToIPFS w (packageUploadArgs w a' furl fpath)
             = handleUploadToIPFS w (packageUploadArgs w a furl fpath)"
    and "packageMetadataArgs a' = packageMetadataArgs a" and "pa_ipfsService a' = pa_ipfsService a"
  shows "fst (handleCreatePackage w a') = fst (handleCreatePackage w a)
       \<and> filter external (snd (handleCreatePackage w a')) = filter external (snd (handleCreatePackage w a))"
proof -
  obtain rr tr1 where rr: "resolveImage w a = (rr, tr1)" by (cases "resolveImage w a")
  show ?thesis
  proof (cases rr)
    case (Inl e)
    with rr assms(1,2,3) show ?thesis
      by (simp add: handleCreatePackage_def createPackage_try_def)
  next
    case (Inr src)
    obtain furl fpath gp where s: "src = (furl, fpath, gp)" by (cases src)
    from rr Inr s have r: "resolveImage w a = (Inr (furl, fpath, gp), tr1)" by simp
    with assms(3) have r': "resolveImage w a' = (Inr (furl, fpath, gp), tr1)" by simp
    obtain x t where x: "uploadStage w a (furl, fpath, gp) = (x, t)"
      by (cases "uploadStage w a (furl, fpath, gp)")
    obtain x' t' where x': "uploadStage w a' (furl, fpath, gp) = (x', t')"
      by (cases "uploadStage w a' (furl, fpath, gp)")
    from uploadStage_cong [OF assms(4) [OF r] assms(5,6), of gp] x x'
    have e: "x' = x" "filter external t' = filter external t" by simp_all
    have g: "filter external tr1 = tr1"
    proof -
      have "external e" if "e \<in> set tr1" for e
        using resolveImage_events [OF r that] by simp
      then show ?thesis by (simp add: filter_id_conv)
    qed
    show ?thesis
      using e g x x'
      by (cases x) (simp_all add: package_run [OF assms(1) r] package_run [OF assms(2) r'])
  qed
qed

lemma precedence_runs_equal:
  assumes "url_issues w ''imageUrl'' (pa_imageUrl a) = []"
    and "url_issues w ''external_url'' (pa_external_url a) = []"
  shows "(truthy (pa_prompt a) \<longrightarrow>
            package_issues w a = []
          \<and> fst (handleCreatePackage w a)
              = fst (handleCreatePackage w (a\<lparr>pa_imageUrl := None, pa_imagePath := None\<rparr>))
          \<and> filter external (snd (handleCreatePackage w a))
              = filter external (snd (handleCreatePackage w (a\<lparr>pa_imageUrl := None, pa_imagePath := None\<rparr>))))
       \<and> (\<not> truthy (pa_prompt a) \<and> truthy (pa_imageUrl a) \<longrightarrow>
            package_issues w a = []
          \<and> fst (handleCreatePackage w a)
              = fst (handleCreatePackage w (a\<lparr>pa_imagePath := None\<rparr>))
          \<and> filter external (snd (handleCreatePackage w a))
              = filter external (snd (handleCreatePackage w (a\<lparr>pa_imagePath := None\<rparr>))))"
proof (intro conjI impI)
  assume p: "truthy (pa_prompt a)"
  let ?a = "a\<lparr>pa_imageUrl := None, pa_imagePath := None\<rparr>"
  from p assms show pi: "package_issues w a = []" by (simp add: package_issues_def)
  from p assms have pi': "package_issues w ?a = []" by (simp add: package_issues_def url_issues_def)
  have gq: "generationRequest ?a = generationRequest a"
    by (simp add: generationRequest_def)
  have res: "resolveImage w a = resolveImage w ?a"
    unfolding resolveImage_def gq using p by simp
  have up: "handleUploadToIPFS w (packageUploadArgs w a furl fpath)
             = handleUploadToIPFS w (packageUploadArgs w ?a furl fpath)"
    if "resolveImage w ?a = (Inr (furl, fpath, gp), tr)" for furl fpath gp tr
  proof (cases "truthy fpath")
    case True
    then show ?thesis by (simp add: packageUploadArgs_def packageFileName_def baseFileName_def)
  next
    case False
    with that have t: "truthy furl" using resolveImage_sources by blast
    have "packageUploadArgs w a furl fpath
            = (packageUploadArgs w ?a furl fpath)\<lparr>ua_imagePath := pa_imagePath a\<rparr>"
      using False by (simp add: packageUploadArgs_def packageFileName_def baseFileName_def)
    moreover have "truthy (ua_imageUrl (packageUploadArgs w ?a furl fpath))"
      using t by (simp add: packageUploadArgs_def)
    ultimately show ?thesis by (simp add: upload_ignores_path)
  qed
  have c: "fst (handleCreatePackage w a) = fst (handleCreatePackage w ?a)
       \<and> filter external (snd (handleCreatePackage w a)) = filter external (snd (handleCreatePackage w ?a))"
    by (rule package_cong [OF pi' pi res up]) (simp_all add: packageMetadataArgs_def fun_eq_iff)
  from c show "fst (handleCreatePackage w a) = fst (handleCreatePackage w ?a)" by simp
  from c show "filter external (snd (handleCreatePackage w a))
                 = filter external (snd (handleCreatePackage w ?a))" by simp
next
  assume h: "\<not> truthy (pa_prompt a) \<and> truthy (pa_imageUrl a)"
  let ?a = "a\<lparr>pa_imagePath := None\<rparr>"
  from h assms show pi: "package_issues w a = []" by (simp add: package_issues_def)
  from h assms have pi': "package_issues w ?a = []" by (simp add: package_issues_def)
  have gq: "generationRequest ?a = generationRequest a"
    by (simp add: generationRequest_def)
  have res: "resolveImage w a = resolveImage w ?a"
    unfolding resolveImage_def gq using h by simp
  have up: "handleUploadToIPFS w (packageUploadArgs w a furl fpath)
             = handleUploadToIPFS w (packageUploadArgs w ?a furl fpath)"
    if "resolveImage w ?a = (Inr (furl, fpath, gp), tr)" for furl fpath gp tr
  proof -
    from that h have f: "furl = pa_imageUrl a" "fpath = None"
      by (auto simp: resolveImage_def)
    have "packageUploadArgs w a furl fpath
            = (packageUploadArgs w ?a furl fpath)\<lparr>ua_imagePath := pa_imagePath a\<rparr>"
      using f by (simp add: packageUploadArgs_def packageFileName_def baseFileName_def truthy_def)
    moreover have "truthy (ua_imageUrl (packageUploadArgs w ?a furl fpath))"
      using f h by (simp add: packageUploadArgs_def)
    ultimately show ?thesis by (simp add: upload_ignores_path)
  qed
  have c: "fst (handleCreatePackage w a) = fst (handleCreatePackage w ?a)
       \<and> filter external (snd (handleCreatePackage w a)) = filter external (snd (handleCreatePackage w ?a))"
    by (rule package_cong [OF pi' pi res up]) (simp_all add: packageMetadataArgs_def fun_eq_iff)
  from c show "fst (handleCreatePackage w a) = fst (handleCreatePackage w ?a)" by simp
  from c show "filter external (snd (handleCreatePackage w a))
                 = filter external (snd (handleCreatePackage w ?a))" by simp
qed

text \<open>
  Claim C1. In a successful package run, the image field of the metadata document that is
  returned and posted is \<open>ipfs://\<close> followed by the content identifier that the upload
  handler returned, and it differs from the gateway URL of the image.
\<close>

theorem metadata_image_reference:
  assumes "handleCreatePackage w a = (Inr r, tr)"
  shows "\<exists>uargs up tr2 ep form k.
           EvUploadStage uargs \<in> set tr
         \<and> handleUploadToIPFS w uargs = (Inr up, tr2)
         \<and> ur_cid up = Some (pr_imageCid r)
         \<and> md_image (pr_metadata r) = ''ipfs://'' @ pr_imageCid r
         \<and> md_image (pr_metadata r) \<noteq> ur_gatewayUrl up
         \<and> EvPost ep form k \<in> set tr
         \<and> fd_file form = MetadataJson (pr_metadata r)"
proof -
  from package_success [OF assms] obtain furl fpath gp tr1 up tr2 cid md tr3 where
    u: "handleUploadToIPFS w (packageUploadArgs w a furl fpath) = (Inr up, tr2)"
    and c: "ur_cid up = Some cid"
    and m: "handleCreateMetadata w (packageMetadataArgs a cid) = (Inr md, tr3)"
    and r: "r = packageResult w a gp up cid md"
    and t: "tr = tr1 @ EvUploadStage (packageUploadArgs w a furl fpath) # tr2
                  @ EvMetadataStage (packageMetadataArgs a cid) # tr3"
    by blast
  from metadata_success [OF m] obtain ep form k where
    md: "mr_metadata md = buildMetadata (packageMetadataArgs a cid)"
    and p: "tr3 = [EvPost ep form k]"
    and f: "fd_file form = MetadataJson (buildMetadata (packageMetadataArgs a cid))"
    by blast
  have i: "md_image (pr_metadata r) = ''ipfs://'' @ pr_imageCid r"
    using r md by (simp add: packageResult_def buildMetadata_def packageMetadataArgs_def)
  from upload_success [OF u] have "hd (ur_gatewayUrl up) = CHR ''h''" by simp
  moreover have "hd (md_image (pr_metadata r)) = CHR ''i''" using i by simp
  ultimately have "hd (md_image (pr_metadata r)) \<noteq> hd (ur_gatewayUrl up)" by simp
  then have g: "md_image (pr_metadata r) \<noteq> ur_gatewayUrl up" by metis
  have "EvUploadStage (packageUploadArgs w a furl fpath) \<in> set tr" using t by simp
  moreover have "ur_cid up = Some (pr_imageCid r)" using c r by (simp add: packageResult_def)
  moreover have "EvPost ep form k \<in> set tr" using t p by simp
  moreover have "fd_file form = MetadataJson (pr_metadata r)"
    using f md r by (simp add: packageResult_def)
  ultimately show ?thesis using u i g by blast
qed

lemmas handler_defs =
  handleCreatePackage_def createPackage_try_def uploadStage_def metadataStage_def
  handleCreateMetadata_def createMetadata_try_def handleUploadToIPFS_def uploadToIPFS_try_def
  getImageData_def postToService_def postForm_def resolveImage_def package_issues_def
  upload_issues_def metadata_issues_def url_issues_def selectService_def resolveApiKey_def
  envKey_def serviceEnvMap_def apiKeyRequired_def packageUploadArgs_def packageMetadataArgs_def
  packageResult_def buildMetadata_def generationRequest_def truthy_def or_else_def
  parsedFileName_def cid_text_def noSourceIssue_def packageFileName_def baseFileName_def
  split_pop_def authFailed403_def authFailed401_def imageUploadFails_def Let_def

lemmas stub_defs =
  stubWorld_def stubWorldNoKey_def stubWorldForbidden_def stubWorldMetadataForbidden_def
  stubWorldMetadataDown_def stubGenerated_def stubPost_def foxRequest_def artRequest_def
  urlUpload_def pathUpload_def dragonMetadata_def emptyRequest_def mixedRequest_def
  urlAndPathRequest_def plainUrlUpload_def stubWorldGetForbidden_def badUrlRequest_def
  bothUpload_def

lemma slug_fox: "slug ''Fox #1'' = ''fox-1''"
  by code_simp

lemma show_ts: "show_nat 1700000000000 = ''1700000000000''"
  by (simp add: show_nat.simps digit_char_def)

lemma uploadStage_trace:
  "\<exists>r rest. uploadStage w a (furl, fpath, gp)
             = (r, EvUploadStage (packageUploadArgs w a furl fpath)
                    # snd (handleUploadToIPFS w (packageUploadArgs w a furl fpath)) @ rest)
           \<and> (rest = [] \<or> (\<exists>cid. rest = EvMetadataStage (packageMetadataArgs a cid)
                                 # snd (handleCreateMetadata w (packageMetadataArgs a cid))))"
proof -
  let ?u = "packageUploadArgs w a furl fpath"
  obtain ru tr2 where ru: "handleUploadToIPFS w ?u = (ru, tr2)" by (cases "handleUploadToIPFS w ?u")
  show ?thesis
  proof (cases ru)
    case (Inl e)
    with ru show ?thesis by (simp add: uploadStage_raises)
  next
    case (Inr up)
    show ?thesis
    proof (cases "truthy (ur_cid up)")
      case False
      with ru Inr show ?thesis by (simp add: uploadStage_no_cid)
    next
      case True
      then obtain cid where cid: "ur_cid up = Some cid" "cid \<noteq> []"
        by (auto simp: truthy_def split: option.splits)
      obtain rm tr3 where rm: "handleCreateMetadata w (packageMetadataArgs a cid) = (rm, tr3)"
        by (cases "handleCreateMetadata w (packageMetadataArgs a cid)")
      have "uploadStage w a (furl, fpath, gp) =
           (case rm of Inl e \<Rightarrow> Inl e | Inr md \<Rightarrow> Inr (packageResult w a gp up cid md),
            EvUploadStage ?u # tr2 @ EvMetadataStage (packageMetadataArgs a cid) # tr3)"
        using ru Inr cid rm by (intro uploadStage_metadata) auto
      with ru rm show ?thesis by auto
    qed
  qed
qed

lemma uploadStage_no_generate:
  assumes "uploadStage w a (furl, fpath, gp) = (r, tr)" and "e \<in> set tr"
  shows "\<not> generateEvent e"
proof -
  let ?u = "packageUploadArgs w a furl fpath"
  obtain ru tr2 where ru: "handleUploadToIPFS w ?u = (ru, tr2)" by (cases "handleUploadToIPFS w ?u")
  from uploadStage_trace [of w a furl fpath gp] assms(1) ru obtain rest where
    t: "tr = EvUploadStage ?u # tr2 @ rest"
    and rest: "rest = [] \<or> (\<exists>cid. rest = EvMetadataStage (packageMetadataArgs a cid)
                                 # snd (handleCreateMetadata w (packageMetadataArgs a cid)))"
    by auto
  from t assms(2) consider "e = EvUploadStage ?u" | "e \<in> set tr2" | "e \<in> set rest" by auto
  then show ?thesis
  proof cases
    case 1
    then show ?thesis by simp
  next
    case 2
    from upload_events [OF ru 2] show ?thesis by auto
  next
    case 3
    with rest obtain cid where
      "e = EvMetadataStage (packageMetadataArgs a cid)
       \<or> e \<in> set (snd (handleCreateMetadata w (packageMetadataArgs a cid)))" by auto
    then show ?thesis
    proof
      assume "e = EvMetadataStage (packageMetadataArgs a cid)"
      then show ?thesis by simp
    next
      assume m: "e \<in> set (snd (handleCreateMetadata w (packageMetadataArgs a cid)))"
      obtain rm tm where hm: "handleCreateMetadata w (packageMetadataArgs a cid) = (rm, tm)"
        by (cases "handleCreateMetadata w (packageMetadataArgs a cid)")
      with m have "e \<in> set tm" by simp
      from metadata_events [OF hm this] show ?thesis by auto
    qed
  qed
qed

text \<open>
  Claim C4. A valid package request with an imageUrl and no prompt never calls the image
  generator, and the first thing the run does is to call the upload handler with that URL
  unchanged.
\<close>

theorem url_source_skips_generation:
  assumes "package_issues w a = []" and "\<not> truthy (pa_prompt a)"
    and "pa_imageUrl a = Some u" and "u \<noteq> []"
  shows "(\<forall>e \<in> set (snd (handleCreatePackage w a)). \<not> generateEvent e)
       \<and> (\<exists>uargs tr. snd (handleCreatePackage w a) = EvUploadStage uargs # tr
              \<and> ua_imageUrl uargs = Some u)"
proof -
  from assms(2,3,4) have r: "resolveImage w a = (Inr (Some u, None, None), [])"
    by (simp add: resolveImage_def truthy_def)
  obtain x t where x: "uploadStage w a (Some u, None, None) = (x, t)"
    by (cases "uploadStage w a (Some u, None, None)")
  have s: "snd (handleCreatePackage w a) = t"
    using x by (cases x) (simp_all add: package_run [OF assms(1) r])
  from uploadStage_trace [of w a "Some u" None None] x obtain tr where
    t: "t = EvUploadStage (packageUploadArgs w a (Some u) None) # tr" by auto
  have "ua_imageUrl (packageUploadArgs w a (Some u) None) = Some u"
    using assms(4) by (simp add: packageUploadArgs_def truthy_def)
  with s t uploadStage_no_generate [OF x] show ?thesis by auto
qed

text \<open>
  Claim C2 (amended). When the image upload stage fails, the metadata stage is never
  entered and no document is posted, and the run ends in one error. When the upload
  handler threw, the error is \<open>NFT package creation failed:\<close> followed by the message its
  catch block builds from what was thrown in its try block: the authentication text when
  what was thrown carries an answer with status 403 or 401 (from the GET of the image as
  well as from the POST to the storage service), and a message that starts with
  \<open>IPFS upload failed\<close> in every other case. When the handler returned an envelope without
  a content identifier, the error is \<open>No CID returned from IPFS upload\<close> with the envelope.
\<close>

theorem upload_failure_aborts:
  assumes "package_issues w a = []" and "resolveImage w a = (Inr (furl, fpath, gp), tr1)"
    and "imageUploadFails w (packageUploadArgs w a furl fpath)"
  shows "(\<forall>e \<in> set (snd (handleCreatePackage w a)). \<not> metadataEvent e)
       \<and> (\<forall>x tr2. uploadToIPFS_try w (packageUploadArgs w a furl fpath) = (Inl x, tr2) \<longrightarrow>
             handleCreatePackage w a =
               (Inl (Error (''NFT package creation failed: '' @ upload_catch w x)),
                tr1 @ EvUploadStage (packageUploadArgs w a furl fpath) # tr2)
           \<and> (\<forall>m body. x = AxiosError m (Some (403, body)) \<longrightarrow>
                 upload_catch w x = authFailed403 body)
           \<and> (\<forall>m body. x = AxiosError m (Some (401, body)) \<longrightarrow>
                 upload_catch w x = authFailed401 body)
           \<and> (responseStatus x \<noteq> Some 403 \<and> responseStatus x \<noteq> Some 401 \<longrightarrow>
                 take 18 (upload_catch w x) = ''IPFS upload failed''))
       \<and> (\<forall>up tr2. uploadToIPFS_try w (packageUploadArgs w a furl fpath) = (Inr up, tr2) \<longrightarrow>
             handleCreatePackage w a =
               (Inl (Error (''NFT package creation failed: ''
                      @ ''No CID returned from IPFS upload. Response: '' @ jsonStringify w up)),
                tr1 @ EvUploadStage (packageUploadArgs w a furl fpath) # tr2))"
proof (intro conjI allI impI)
  let ?u = "packageUploadArgs w a furl fpath"
  obtain ru tr2 where ru: "handleUploadToIPFS w ?u = (ru, tr2)" by (cases "handleUploadToIPFS w ?u")
  have ev: "\<not> metadataEvent e" if "e \<in> set (tr1 @ EvUploadStage ?u # tr2)" for e
  proof -
    from that consider "e \<in> set tr1" | "e = EvUploadStage ?u" | "e \<in> set tr2" by auto
    then show ?thesis
    proof cases
      case 1
      from resolveImage_events [OF assms(2) 1] show ?thesis by simp
    next
      case 2
      then show ?thesis by simp
    next
      case 3
      from upload_events [OF ru 3] show ?thesis by auto
    qed
  qed
  have tr: "snd (handleCreatePackage w a) = tr1 @ EvUploadStage ?u # tr2"
  proof (cases ru)
    case (Inl e)
    with ru have "uploadStage w a (furl, fpath, gp) = (Inl e, EvUploadStage ?u # tr2)"
      by (simp add: uploadStage_raises)
    then show ?thesis by (simp add: package_run [OF assms(1,2)])
  next
    case (Inr up)
    with assms(3) ru upload_success [of w ?u up tr2] have "\<not> truthy (ur_cid up)"
      by (simp add: imageUploadFails_def)
    with ru Inr have "uploadStage w a (furl, fpath, gp) =
           (Inl (Error (''No CID returned from IPFS upload. Response: '' @ jsonStringify w up)),
            EvUploadStage ?u # tr2)"
      by (simp add: uploadStage_no_cid)
    then show ?thesis by (simp add: package_run [OF assms(1,2)])
  qed
  from tr ev show "\<forall>e \<in> set (snd (handleCreatePackage w a)). \<not> metadataEvent e" by simp
next
  fix x tr2
  assume t: "uploadToIPFS_try w (packageUploadArgs w a furl fpath) = (Inl x, tr2)"
  then have "handleUploadToIPFS w (packageUploadArgs w a furl fpath) = (Inl (Error (upload_catch w x)), tr2)"
    by (simp add: handleUploadToIPFS_def)
  then have "uploadStage w a (furl, fpath, gp)
               = (Inl (Error (upload_catch w x)), EvUploadStage (packageUploadArgs w a furl fpath) # tr2)"
    by (rule uploadStage_raises)
  then show "handleCreatePackage w a =
               (Inl (Error (''NFT package creation failed: '' @ upload_catch w x)),
                tr1 @ EvUploadStage (packageUploadArgs w a furl fpath) # tr2)"
    by (simp add: package_run [OF assms(1,2)])
next
  fix x :: exn and m body
  assume "x = AxiosError m (Some (403, body))"
  then show "upload_catch w x = authFailed403 body" by simp
next
  fix x :: exn and m body
  assume "x = AxiosError m (Some (401, body))"
  then show "upload_catch w x = authFailed401 body" by simp
next
  fix x :: exn
  assume "responseStatus x \<noteq> Some 403 \<and> responseStatus x \<noteq> Some 401"
  then show "take 18 (upload_catch w x) = ''IPFS upload failed''"
    by (cases "(w, x)" rule: upload_catch.cases) auto
next
  fix up tr2
  assume t: "uploadToIPFS_try w (packageUploadArgs w a furl fpath) = (Inr up, tr2)"
  then have h: "handleUploadToIPFS w (packageUploadArgs w a furl fpath) = (Inr up, tr2)"
    by (simp add: handleUploadToIPFS_def)
  with assms(3) upload_success [OF h] have "\<not> truthy (ur_cid up)"
    by (simp add: imageUploadFails_def)
  with h have "uploadStage w a (furl, fpath, gp) =
           (Inl (Error (''No CID returned from IPFS upload. Response: '' @ jsonStringify w up)),
            EvUploadStage (packageUploadArgs w a furl fpath) # tr2)"
    by (simp add: uploadStage_no_cid)
  then show "handleCreatePackage w a =
               (Inl (Error (''NFT package creation failed: ''
                      @ ''No CID returned from IPFS upload. Response: '' @ jsonStringify w up)),
                tr1 @ EvUploadStage (packageUploadArgs w a furl fpath) # tr2)"
    by (simp add: package_run [OF assms(1,2)])
qed

text \<open>
  Claim C7 (amended). When the metadata handler fails after the image was stored, the
  run ends in one error whose message is \<open>NFT package creation failed:\<close> followed by
  the message that the metadata handler builds from what was thrown; the image stays
  stored, as the log shows.
\<close>

theorem metadata_failure_message:
  assumes "package_issues w a = []" and "resolveImage w a = (Inr (furl, fpath, gp), tr1)"
    and "handleUploadToIPFS w (packageUploadArgs w a furl fpath) = (Inr up, tr2)"
    and "ur_cid up = Some cid" and "cid \<noteq> []"
    and "handleCreateMetadata w (packageMetadataArgs a cid) = (Inl e, tr3)"
  shows "\<exists>x. createMetadata_try w (packageMetadataArgs a cid) = (Inl x, tr3)
           \<and> handleCreatePackage w a =
               (Inl (Error (''NFT package creation failed: '' @ metadata_catch w x)),
                tr1 @ EvUploadStage (packageUploadArgs w a furl fpath) # tr2
                  @ EvMetadataStage (packageMetadataArgs a cid) # tr3)"
proof -
  from assms(6) obtain x where x: "createMetadata_try w (packageMetadataArgs a cid) = (Inl x, tr3)"
    and e: "e = Error (metadata_catch w x)"
    by (auto simp: handleCreateMetadata_def split: prod.splits sum.splits)
  from uploadStage_metadata [OF assms(3,4,5,6), of gp]
  have "handleCreatePackage w a =
               (Inl (Error (''NFT package creation failed: '' @ metadata_catch w x)),
                tr1 @ EvUploadStage (packageUploadArgs w a furl fpath) # tr2
                  @ EvMetadataStage (packageMetadataArgs a cid) # tr3)"
    using e by (simp add: package_run [OF assms(1,2)])
  with x show ?thesis by blast
qed





text \<open>
  Claim C3. A package request whose prompt, imageUrl and imagePath are all absent or empty
  fails with the validation error of the schema, which holds the issue of the missing
  image source, and no external call is made.
\<close>

theorem no_source_rejected:
  assumes "\<not> truthy (pa_prompt a)" and "\<not> truthy (pa_imageUrl a)" and "\<not> truthy (pa_imagePath a)"
  shows "handleCreatePackage w a =
           (Inl (Error (''NFT package creation failed: '' @ zodMessage w (package_issues w a))), [])
         \<and> noSourceIssue \<in> set (package_issues w a)"
  using assms by (simp add: handleCreatePackage_def createPackage_try_def package_issues_def)

lemma upload_fileName:
  assumes g: "getImageData w a = (ri, ti)" and f: "\<And>buf fn. ri = Inr (buf, fn) \<Longrightarrow> fn = F"
  shows "(\<forall>ep form k. EvPost ep form k \<in> set (snd (handleUploadToIPFS w a)) \<longrightarrow> fd_fileName form = F)
       \<and> (\<forall>r. fst (handleUploadToIPFS w a) = Inr r \<longrightarrow> ur_fileName r = F)"
proof -
  define sv where "sv = selectService w (ua_service a)"
  define k where "k = resolveApiKey w (ua_apiKey a) sv"
  show ?thesis
  proof (cases ri)
    case (Inl x)
    with g have t: "uploadToIPFS_try w a = (Inl (ZodError (upload_issues w a)), [])
                  \<or> uploadToIPFS_try w a = (Inl (Error (apiKeyRequired sv)), [])
                  \<or> uploadToIPFS_try w a = (Inl x, ti)"
      by (auto simp: uploadToIPFS_try_def Let_def sv_def)
    then have r: "\<forall>r. fst (handleUploadToIPFS w a) \<noteq> Inr r"
      by (auto simp: handleUploadToIPFS_def)
    from t have "snd (handleUploadToIPFS w a) = [] \<or> snd (handleUploadToIPFS w a) = ti"
      by (auto simp: handleUploadToIPFS_def)
    moreover have "EvPost ep form k' \<notin> set ti" for ep form k'
      using getImageData_events [OF g, of "EvPost ep form k'"] by auto
    ultimately show ?thesis using r by auto
  next
    case (Inr bf)
    obtain buf fn where bf: "bf = (buf, fn)" by (cases bf)
    with Inr f have fn: "fn = F" by simp
    obtain rp tp where p: "postToService w sv k (ImageBytes buf) fn = (rp, tp)"
      by (cases "postToService w sv k (ImageBytes buf) fn")
    have pe: "fd_fileName form = F" if "EvPost ep form k' \<in> set tp" for ep form k'
      using postToService_events [OF p that] fn by auto
    have ge: "EvPost ep form k' \<notin> set ti" for ep form k'
      using getImageData_events [OF g, of "EvPost ep form k'"] by auto
    from g Inr bf p have t: "uploadToIPFS_try w a = (Inl (ZodError (upload_issues w a)), [])
                  \<or> uploadToIPFS_try w a = (Inl (Error (apiKeyRequired sv)), [])
                  \<or> (\<exists>e. uploadToIPFS_try w a = (Inl e, ti @ tp))
                  \<or> (\<exists>r. uploadToIPFS_try w a = (Inr r, ti @ tp) \<and> ur_fileName r = fn)"
      by (auto simp: uploadToIPFS_try_def Let_def sv_def k_def split: sum.splits)
    then have "snd (handleUploadToIPFS w a) = [] \<or> snd (handleUploadToIPFS w a) = ti @ tp"
      by (auto simp: handleUploadToIPFS_def)
    then have 1: "\<forall>ep form k. EvPost ep form k \<in> set (snd (handleUploadToIPFS w a)) \<longrightarrow> fd_fileName form = F"
      using pe ge by auto
    from t have 2: "\<forall>r. fst (handleUploadToIPFS w a) = Inr r \<longrightarrow> ur_fileName r = F"
      using fn by (auto simp: handleUploadToIPFS_def)
    from 1 2 show ?thesis by simp
  qed
qed


text \<open>
  Claim C10 (amended). When the upload handler is called with a local path and no image
  URL, the filename of every form it posts, and of the envelope it returns, is what
  follows the last slash of the path, whatever filename the call gave; the filename of the
  call is used only when nothing follows the last slash, that is, when the path ends with
  a slash. When an image URL is given as well, the file is not read and the filename
  follows the URL: its last path segment if that holds a dot, the filename of the call or
  its default otherwise.
\<close>

theorem path_filename_override:
  assumes "ua_imagePath a = Some p" and "p \<noteq> []"
  shows "(\<not> truthy (ua_imageUrl a) \<longrightarrow>
            (\<forall>ep form k. EvPost ep form k \<in> set (snd (handleUploadToIPFS w a)) \<longrightarrow>
               fd_fileName form = (if split_pop p \<noteq> [] then split_pop p else parsedFileName a))
          \<and> (\<forall>r. fst (handleUploadToIPFS w a) = Inr r \<longrightarrow>
               ur_fileName r = (if split_pop p \<noteq> [] then split_pop p else parsedFileName a)))
       \<and> (\<forall>u. ua_imageUrl a = Some u \<and> u \<noteq> [] \<longrightarrow>
            EvReadFile p \<notin> set (snd (handleUploadToIPFS w a))
          \<and> (\<forall>ep form k. EvPost ep form k \<in> set (snd (handleUploadToIPFS w a)) \<longrightarrow>
               fd_fileName form = (if CHR ''.'' \<in> set (split_pop (urlPathname w u))
                                   then split_pop (urlPathname w u) else parsedFileName a))
          \<and> (\<forall>r. fst (handleUploadToIPFS w a) = Inr r \<longrightarrow>
               ur_fileName r = (if CHR ''.'' \<in> set (split_pop (urlPathname w u))
                                then split_pop (urlPathname w u) else parsedFileName a)))
       \<and> split_pop p = rev (takeWhile (\<lambda>c. c \<noteq> CHR ''/'') (rev p))
       \<and> (split_pop p = [] \<longleftrightarrow> last p = CHR ''/'')"
proof -
  obtain ri ti where g: "getImageData w a = (ri, ti)" by (cases "getImageData w a")
  obtain rh th where h: "handleUploadToIPFS w a = (rh, th)" by (cases "handleUploadToIPFS w a")
  have 1: "(\<forall>ep form k. EvPost ep form k \<in> set (snd (handleUploadToIPFS w a)) \<longrightarrow>
               fd_fileName form = (if split_pop p \<noteq> [] then split_pop p else parsedFileName a))
          \<and> (\<forall>r. fst (handleUploadToIPFS w a) = Inr r \<longrightarrow>
               ur_fileName r = (if split_pop p \<noteq> [] then split_pop p else parsedFileName a))"
    if n: "\<not> truthy (ua_imageUrl a)"
  proof -
    from n have u: "or_else (ua_imageUrl a) [] = []"
      by (auto simp: truthy_def or_else_def split: option.splits)
    have "fn = (if split_pop p \<noteq> [] then split_pop p else parsedFileName a)"
      if "ri = Inr (buf, fn)" for buf fn
      using g that assms u
      by (auto simp: getImageData_def or_else_def Let_def split: sum.splits if_splits)
    from upload_fileName [OF g this] show ?thesis by simp
  qed
  have 2: "EvReadFile p \<notin> set (snd (handleUploadToIPFS w a))
          \<and> (\<forall>ep form k. EvPost ep form k \<in> set (snd (handleUploadToIPFS w a)) \<longrightarrow>
               fd_fileName form = (if CHR ''.'' \<in> set (split_pop (urlPathname w u))
                                   then split_pop (urlPathname w u) else parsedFileName a))
          \<and> (\<forall>r. fst (handleUploadToIPFS w a) = Inr r \<longrightarrow>
               ur_fileName r = (if CHR ''.'' \<in> set (split_pop (urlPathname w u))
                                then split_pop (urlPathname w u) else parsedFileName a))"
    if y: "ua_imageUrl a = Some u \<and> u \<noteq> []" for u
  proof -
    from y have t: "truthy (ua_imageUrl a)" by (simp add: truthy_def)
    with upload_sources [OF h, of _ p] h have r: "EvReadFile p \<notin> set (snd (handleUploadToIPFS w a))"
      by auto
    have "fn = (if CHR ''.'' \<in> set (split_pop (urlPathname w u))
                then split_pop (urlPathname w u) else parsedFileName a)"
      if "ri = Inr (buf, fn)" for buf fn
      using g that y
      by (auto simp: getImageData_def or_else_def Let_def split: sum.splits if_splits)
    from upload_fileName [OF g this] r show ?thesis by simp
  qed
  from 1 2 split_pop_suffix [of p] split_pop_empty_iff [OF assms(2)]
  show ?thesis by blast
qed

text \<open>
  Claim C5 (amended). The slug of \<open>Dragon #1!!\<close> is \<open>dragon-1\<close>. Applying the slug twice
  gives the slug exactly when the slug does not end in a hyphen, which holds whenever
  the slug before the cut has at most 50 characters. The filename that a package run
  hands to the upload handler is the slug of the name, or of the prompt when the name is
  empty, or of \<open>nft-image\<close> when both are, followed by a hyphen, the clock in
  milliseconds and \<open>.png\<close>.
\<close>

theorem slug_and_filename:
  "slug ''Dragon #1!!'' = ''dragon-1''
   \<and> (slug (slug s) = slug s \<longleftrightarrow> slug s = [] \<or> last (slug s) \<noteq> CHR ''-'')
   \<and> (length (strip_hyphens (replace_runs (toLowerCase s))) \<le> 50 \<longrightarrow> slug (slug s) = slug s)
   \<and> (\<forall>u. EvUploadStage u \<in> set (snd (handleCreatePackage w a)) \<longrightarrow>
         ua_fileName u =
           Some (slug (if pa_name a \<noteq> [] then pa_name a else or_else (pa_prompt a) ''nft-image'')
                 @ ''-'' @ show_nat (dateNow w) @ ''.png''))"
proof (intro conjI allI impI)
  show "slug ''Dragon #1!!'' = ''dragon-1''" by code_simp
next
  show "slug (slug s) = slug s \<longleftrightarrow> slug s = [] \<or> last (slug s) \<noteq> CHR ''-''"
    by (rule slug_idem_iff)
next
  assume "length (strip_hyphens (replace_runs (toLowerCase s))) \<le> 50"
  then have "slug s = strip_hyphens (replace_runs (toLowerCase s))" by (simp add: slug_def)
  with strip_hyphens_last [of "replace_runs (toLowerCase s)"]
  have "slug s = [] \<or> last (slug s) \<noteq> CHR ''-''" by simp
  then show "slug (slug s) = slug s" by (simp add: slug_idem_iff)
next
  fix u
  assume m: "EvUploadStage u \<in> set (snd (handleCreatePackage w a))"
  have f: "ua_fileName (packageUploadArgs w a furl fpath) =
           Some (slug (if pa_name a \<noteq> [] then pa_name a else or_else (pa_prompt a) ''nft-image'')
                 @ ''-'' @ show_nat (dateNow w) @ ''.png'')" for furl fpath
    by (simp add: packageUploadArgs_def packageFileName_def baseFileName_def or_else_def)
  obtain rr tr1 where rr: "resolveImage w a = (rr, tr1)" by (cases "resolveImage w a")
  have n1: "EvUploadStage u \<notin> set tr1"
    using resolveImage_events [OF rr, of "EvUploadStage u"] by auto
  show "ua_fileName u =
           Some (slug (if pa_name a \<noteq> [] then pa_name a else or_else (pa_prompt a) ''nft-image'')
                 @ ''-'' @ show_nat (dateNow w) @ ''.png'')"
  proof (cases "package_issues w a = []")
    case False
    with m show ?thesis by (simp add: handleCreatePackage_def createPackage_try_def)
  next
    case True
    show ?thesis
    proof (cases rr)
      case (Inl e)
      with m rr True n1 show ?thesis by (simp add: handleCreatePackage_def createPackage_try_def)
    next
      case (Inr src)
      obtain furl fpath gp where s: "src = (furl, fpath, gp)" by (cases src)
      from rr Inr s have r: "resolveImage w a = (Inr (furl, fpath, gp), tr1)" by simp
      let ?u = "packageUploadArgs w a furl fpath"
      obtain x t where x: "uploadStage w a (furl, fpath, gp) = (x, t)"
        by (cases "uploadStage w a (furl, fpath, gp)")
      have "snd (handleCreatePackage w a) = tr1 @ t"
        using x by (cases x) (simp_all add: package_run [OF True r])
      with m n1 have mt: "EvUploadStage u \<in> set t" by simp
      obtain ru tr2 where ru: "handleUploadToIPFS w ?u = (ru, tr2)" by (cases "handleUploadToIPFS w ?u")
      from uploadStage_trace [of w a furl fpath gp] x ru obtain rest where
        t: "t = EvUploadStage ?u # tr2 @ rest"
        and rest: "rest = [] \<or> (\<exists>cid. rest = EvMetadataStage (packageMetadataArgs a cid)
                                 # snd (handleCreateMetadata w (packageMetadataArgs a cid)))"
        by auto
      have n2: "EvUploadStage u \<notin> set tr2"
        using upload_events [OF ru, of "EvUploadStage u"] by auto
      have n3: "EvUploadStage u \<notin> set rest"
      proof
        assume a3: "EvUploadStage u \<in> set rest"
        with rest obtain cid where
          "EvUploadStage u \<in> set (snd (handleCreateMetadata w (packageMetadataArgs a cid)))" by auto
        moreover obtain rm tm where hm: "handleCreateMetadata w (packageMetadataArgs a cid) = (rm, tm)"
          by (cases "handleCreateMetadata w (packageMetadataArgs a cid)")
        ultimately have "EvUploadStage u \<in> set tm" by simp
        from metadata_events [OF hm this] show False by auto
      qed
      from mt t n2 n3 have "u = ?u" by auto
      with f show ?thesis by simp
    qed
  qed
qed

lemma package_events:
  assumes "e \<in> set (snd (handleCreatePackage w a))"
  shows "package_issues w a = []
       \<and> (e \<in> set (snd (resolveImage w a))
           \<or> (\<exists>furl fpath gp.
                 fst (resolveImage w a) = Inr (furl, fpath, gp)
               \<and> (e = EvUploadStage (packageUploadArgs w a furl fpath)
                   \<or> e \<in> set (snd (handleUploadToIPFS w (packageUploadArgs w a furl fpath)))
                   \<or> (\<exists>cid. e = EvMetadataStage (packageMetadataArgs a cid)
                          \<or> e \<in> set (snd (handleCreateMetadata w (packageMetadataArgs a cid)))))))"
proof -
  have pi: "package_issues w a = []"
  proof (rule ccontr)
    assume "package_issues w a \<noteq> []"
    with assms show False by (simp add: handleCreatePackage_def createPackage_try_def)
  qed
  obtain rr tr1 where rr: "resolveImage w a = (rr, tr1)" by (cases "resolveImage w a")
  show ?thesis
  proof (cases rr)
    case (Inl x)
    with assms rr pi have "e \<in> set tr1"
      by (simp add: handleCreatePackage_def createPackage_try_def)
    with rr pi show ?thesis by simp
  next
    case (Inr src)
    obtain furl fpath gp where s: "src = (furl, fpath, gp)" by (cases src)
    from rr Inr s have r: "resolveImage w a = (Inr (furl, fpath, gp), tr1)" by simp
    obtain x t where x: "uploadStage w a (furl, fpath, gp) = (x, t)"
      by (cases "uploadStage w a (furl, fpath, gp)")
    have "snd (handleCreatePackage w a) = tr1 @ t"
      using x by (cases x) (simp_all add: package_run [OF pi r])
    with assms have m: "e \<in> set tr1 \<or> e \<in> set t" by simp
    from uploadStage_trace [of w a furl fpath gp] x obtain rest where
      t: "t = EvUploadStage (packageUploadArgs w a furl fpath)
                # snd (handleUploadToIPFS w (packageUploadArgs w a furl fpath)) @ rest"
      and rest: "rest = [] \<or> (\<exists>cid. rest = EvMetadataStage (packageMetadataArgs a cid)
                                 # snd (handleCreateMetadata w (packageMetadataArgs a cid)))"
      by auto
    from m t rest r pi show ?thesis by auto
  qed
qed

lemma prompt_runs_generator:
  assumes "package_issues w a = []" and "truthy (pa_prompt a)"
  shows "\<exists>tr. snd (handleCreatePackage w a) = EvGenerate (generationRequest a) # tr"
proof -
  have "snd (resolveImage w a) = [EvGenerate (generationRequest a)]"
    using assms(2) by (simp add: resolveImage_def split: sum.splits)
  then obtain rr where rr: "resolveImage w a = (rr, [EvGenerate (generationRequest a)])"
    by (cases "resolveImage w a") simp
  show ?thesis
  proof (cases rr)
    case (Inl x)
    with rr assms(1) show ?thesis by (simp add: handleCreatePackage_def createPackage_try_def)
  next
    case (Inr src)
    obtain furl fpath gp where s: "src = (furl, fpath, gp)" by (cases src)
    from rr Inr s have r: "resolveImage w a = (Inr (furl, fpath, gp), [EvGenerate (generationRequest a)])"
      by simp
    obtain x t where x: "uploadStage w a (furl, fpath, gp) = (x, t)"
      by (cases "uploadStage w a (furl, fpath, gp)")
    then show ?thesis by (cases x) (simp_all add: package_run [OF assms(1) r])
  qed
qed

lemma prompt_sources:
  assumes "truthy (pa_prompt a)" and "fst (resolveImage w a) = Inr (furl, fpath, gp)"
  shows "\<exists>res. generateImage w (generationRequest a) = Inr res
             \<and> furl = gr_imageUrl res \<and> fpath = gr_localPath res"
  using assms by (auto simp: resolveImage_def split: sum.splits if_splits)

lemma no_generate_in_handlers:
  "EvGenerate q \<notin> set (snd (handleUploadToIPFS w u))"
  "EvGenerate q \<notin> set (snd (handleCreateMetadata w m))"
proof -
  obtain r tr where h: "handleUploadToIPFS w u = (r, tr)" by (cases "handleUploadToIPFS w u")
  from upload_events [OF h, of "EvGenerate q"] h
  show "EvGenerate q \<notin> set (snd (handleUploadToIPFS w u))" by auto
  obtain r' tr' where h': "handleCreateMetadata w m = (r', tr')" by (cases "handleCreateMetadata w m")
  from metadata_events [OF h', of "EvGenerate q"] h'
  show "EvGenerate q \<notin> set (snd (handleCreateMetadata w m))" by auto
qed

lemma fetch_or_read_in_upload:
  assumes "e \<in> set (snd (handleCreatePackage w a))" and "e = EvGet x \<or> e = EvReadFile x"
  shows "\<exists>furl fpath gp. fst (resolveImage w a) = Inr (furl, fpath, gp)
           \<and> e \<in> set (snd (handleUploadToIPFS w (packageUploadArgs w a furl fpath)))"
proof -
  obtain rr tr1 where rr: "resolveImage w a = (rr, tr1)" by (cases "resolveImage w a")
  have n1: "e \<notin> set (snd (resolveImage w a))"
    using resolveImage_events [OF rr, of e] rr assms(2) by auto
  have n2: "e \<notin> set (snd (handleCreateMetadata w m))" for m
  proof -
    obtain r' tr' where h': "handleCreateMetadata w m = (r', tr')" by (cases "handleCreateMetadata w m")
    from metadata_events [OF h', of e] h' assms(2) show ?thesis by auto
  qed
  from package_events [OF assms(1)] n1 n2 assms(2) show ?thesis by auto
qed

text \<open>
  Claim C9 (amended). When the URL fields of a request pass the URL check of the schema,
  several image sources are accepted and one is chosen by precedence. With a prompt, the
  run starts by calling the generator with that prompt; a URL is fetched or a file read
  only if the generator returned it; result and external calls are those of the same
  request without imageUrl and imagePath. Without a prompt and with an imageUrl, the run
  starts by calling the upload handler with that URL, the generator is never called, no
  other URL is fetched and no file is read; result and external calls are those of the
  same request without imagePath.
\<close>

theorem source_precedence:
  assumes "url_issues w ''imageUrl'' (pa_imageUrl a) = []"
    and "url_issues w ''external_url'' (pa_external_url a) = []"
  shows "(truthy (pa_prompt a) \<longrightarrow>
            package_issues w a = []
          \<and> (\<exists>tr. snd (handleCreatePackage w a) = EvGenerate (generationRequest a) # tr)
          \<and> gq_prompt (generationRequest a) = or_else (pa_prompt a) []
          \<and> (\<forall>u. EvGet u \<in> set (snd (handleCreatePackage w a)) \<longrightarrow>
                (\<exists>res. generateImage w (generationRequest a) = Inr res \<and> gr_imageUrl res = Some u))
          \<and> (\<forall>p. EvReadFile p \<in> set (snd (handleCreatePackage w a)) \<longrightarrow>
                (\<exists>res. generateImage w (generationRequest a) = Inr res \<and> gr_localPath res = Some p))
          \<and> fst (handleCreatePackage w a)
              = fst (handleCreatePackage w (a\<lparr>pa_imageUrl := None, pa_imagePath := None\<rparr>))
          \<and> filter external (snd (handleCreatePackage w a))
              = filter external (snd (handleCreatePackage w (a\<lparr>pa_imageUrl := None, pa_imagePath := None\<rparr>))))
       \<and> (\<not> truthy (pa_prompt a) \<and> truthy (pa_imageUrl a) \<longrightarrow>
            package_issues w a = []
          \<and> (\<exists>uargs tr. snd (handleCreatePackage w a) = EvUploadStage uargs # tr
                 \<and> ua_imageUrl uargs = pa_imageUrl a)
          \<and> (\<forall>e \<in> set (snd (handleCreatePackage w a)). \<not> generateEvent e)
          \<and> (\<forall>u. EvGet u \<in> set (snd (handleCreatePackage w a)) \<longrightarrow> pa_imageUrl a = Some u)
          \<and> (\<forall>p. EvReadFile p \<notin> set (snd (handleCreatePackage w a)))
          \<and> fst (handleCreatePackage w a)
              = fst (handleCreatePackage w (a\<lparr>pa_imagePath := None\<rparr>))
          \<and> filter external (snd (handleCreatePackage w a))
              = filter external (snd (handleCreatePackage w (a\<lparr>pa_imagePath := None\<rparr>))))"
proof (intro conjI impI)
  assume p: "truthy (pa_prompt a)"
  note eq = precedence_runs_equal [OF assms]
  from eq p show pi: "package_issues w a = []" by blast
  from prompt_runs_generator [OF pi p]
  show "\<exists>tr. snd (handleCreatePackage w a) = EvGenerate (generationRequest a) # tr" .
  show "gq_prompt (generationRequest a) = or_else (pa_prompt a) []"
    by (simp add: generationRequest_def)
  show "\<forall>u. EvGet u \<in> set (snd (handleCreatePackage w a)) \<longrightarrow>
          (\<exists>res. generateImage w (generationRequest a) = Inr res \<and> gr_imageUrl res = Some u)"
  proof (intro allI impI)
    fix u
    assume m: "EvGet u \<in> set (snd (handleCreatePackage w a))"
    from fetch_or_read_in_upload [OF m, of u] obtain furl fpath gp where
      r: "fst (resolveImage w a) = Inr (furl, fpath, gp)"
      and e: "EvGet u \<in> set (snd (handleUploadToIPFS w (packageUploadArgs w a furl fpath)))" by auto
    obtain rh th where h: "handleUploadToIPFS w (packageUploadArgs w a furl fpath) = (rh, th)"
      by (cases "handleUploadToIPFS w (packageUploadArgs w a furl fpath)")
    with e upload_sources [OF h, of u] have "ua_imageUrl (packageUploadArgs w a furl fpath) = Some u"
      by simp
    then have "furl = Some u" by (simp add: packageUploadArgs_def split: if_splits)
    with prompt_sources [OF p r] show "\<exists>res. generateImage w (generationRequest a) = Inr res
        \<and> gr_imageUrl res = Some u" by auto
  qed
  show "\<forall>q. EvReadFile q \<in> set (snd (handleCreatePackage w a)) \<longrightarrow>
          (\<exists>res. generateImage w (generationRequest a) = Inr res \<and> gr_localPath res = Some q)"
  proof (intro allI impI)
    fix q
    assume m: "EvReadFile q \<in> set (snd (handleCreatePackage w a))"
    from fetch_or_read_in_upload [OF m, of q] obtain furl fpath gp where
      r: "fst (resolveImage w a) = Inr (furl, fpath, gp)"
      and e: "EvReadFile q \<in> set (snd (handleUploadToIPFS w (packageUploadArgs w a furl fpath)))" by auto
    obtain rh th where h: "handleUploadToIPFS w (packageUploadArgs w a furl fpath) = (rh, th)"
      by (cases "handleUploadToIPFS w (packageUploadArgs w a furl fpath)")
    with e upload_sources [OF h, of _ q]
    have n: "\<not> truthy (ua_imageUrl (packageUploadArgs w a furl fpath))"
      and y: "ua_imagePath (packageUploadArgs w a furl fpath) = Some q" by simp_all
    from n have nf: "\<not> truthy furl" by (simp add: packageUploadArgs_def split: if_splits)
    obtain tr1 where "resolveImage w a = (Inr (furl, fpath, gp), tr1)"
      using r by (cases "resolveImage w a") auto
    with nf have "truthy fpath" using resolveImage_sources by blast
    with y have "fpath = Some q" by (simp add: packageUploadArgs_def)
    with prompt_sources [OF p r] show "\<exists>res. generateImage w (generationRequest a) = Inr res
        \<and> gr_localPath res = Some q" by auto
  qed
  from eq p show "fst (handleCreatePackage w a)
      = fst (handleCreatePackage w (a\<lparr>pa_imageUrl := None, pa_imagePath := None\<rparr>))" by blast
  from eq p show "filter external (snd (handleCreatePackage w a))
      = filter external (snd (handleCreatePackage w (a\<lparr>pa_imageUrl := None, pa_imagePath := None\<rparr>)))"
    by blast
next
  assume h: "\<not> truthy (pa_prompt a) \<and> truthy (pa_imageUrl a)"
  note eq = precedence_runs_equal [OF assms]
  from eq h show pi: "package_issues w a = []" by blast
  from h have r: "resolveImage w a = (Inr (pa_imageUrl a, None, None), [])"
    by (simp add: resolveImage_def)
  let ?u = "packageUploadArgs w a (pa_imageUrl a) None"
  have ui: "ua_imageUrl ?u = pa_imageUrl a" using h by (simp add: packageUploadArgs_def)
  obtain x t where x: "uploadStage w a (pa_imageUrl a, None, None) = (x, t)"
    by (cases "uploadStage w a (pa_imageUrl a, None, None)")
  have s: "snd (handleCreatePackage w a) = t"
    using x by (cases x) (simp_all add: package_run [OF pi r])
  from uploadStage_trace [of w a "pa_imageUrl a" None None] x obtain tr where
    t: "t = EvUploadStage ?u # tr" by auto
  from s t ui show "\<exists>uargs tr. snd (handleCreatePackage w a) = EvUploadStage uargs # tr
                 \<and> ua_imageUrl uargs = pa_imageUrl a" by blast
  from s uploadStage_no_generate [OF x]
  show "\<forall>e \<in> set (snd (handleCreatePackage w a)). \<not> generateEvent e" by simp
  obtain rh th where uh: "handleUploadToIPFS w ?u = (rh, th)" by (cases "handleUploadToIPFS w ?u")
  show "\<forall>u. EvGet u \<in> set (snd (handleCreatePackage w a)) \<longrightarrow> pa_imageUrl a = Some u"
  proof (intro allI impI)
    fix u
    assume m: "EvGet u \<in> set (snd (handleCreatePackage w a))"
    from fetch_or_read_in_upload [OF m, of u] r
    have "EvGet u \<in> set (snd (handleUploadToIPFS w ?u))" by auto
    with upload_sources [OF uh, of u] uh ui show "pa_imageUrl a = Some u" by simp
  qed
  show "\<forall>q. EvReadFile q \<notin> set (snd (handleCreatePackage w a))"
  proof (intro allI notI)
    fix q
    assume m: "EvReadFile q \<in> set (snd (handleCreatePackage w a))"
    from fetch_or_read_in_upload [OF m, of q] r
    have "EvReadFile q \<in> set (snd (handleUploadToIPFS w ?u))" by auto
    with upload_sources [OF uh, of _ q] uh ui h show False by simp
  qed
  from eq h show "fst (handleCreatePackage w a)
      = fst (handleCreatePackage w (a\<lparr>pa_imagePath := None\<rparr>))" by blast
  from eq h show "filter external (snd (handleCreatePackage w a))
      = filter external (snd (handleCreatePackage w (a\<lparr>pa_imagePath := None\<rparr>)))" by blast
qed

section \<open>Concrete runs\<close>

theorem metadata_image_reference_witness:
  "\<exists>r tr. handleCreatePackage stubWorld foxRequest = (Inr r, tr)
        \<and> pr_imageCid r = ''abc123''
        \<and> md_image (pr_metadata r) = ''ipfs://abc123''"
proof -
  have "\<exists>r tr. handleCreatePackage stubWorld foxRequest = (Inr r, tr) \<and> pr_imageCid r = ''abc123''"
    by (simp add: handler_defs stub_defs slug_fox show_ts)
  then obtain r tr where h: "handleCreatePackage stubWorld foxRequest = (Inr r, tr)"
    and c: "pr_imageCid r = ''abc123''" by blast
  from metadata_image_reference [OF h] have "md_image (pr_metadata r) = ''ipfs://'' @ pr_imageCid r"
    by blast
  with h c show ?thesis by simp
qed

theorem upload_failure_aborts_witness:
  "handleCreatePackage stubWorldGetForbidden foxRequest =
     (Inl (Error (''NFT package creation failed: '' @ authFailed403 ''denied'')),
      [EvGenerate (generationRequest foxRequest),
       EvUploadStage (packageUploadArgs stubWorldGetForbidden foxRequest (Some ''http://x/fox.png'') None),
       EvGet ''http://x/fox.png''])
   \<and> filter metadataEvent (snd (handleCreatePackage stubWorldForbidden foxRequest)) = []
   \<and> fst (handleCreatePackage stubWorldForbidden foxRequest)
       = Inl (Error (''NFT package creation failed: '' @ authFailed403 ''{}''))"
proof -
  let ?g = stubWorldGetForbidden and ?p = stubWorldForbidden
  let ?src = "Some ''http://x/fox.png''"
  have g1: "package_issues ?g foxRequest = []" and p1: "package_issues ?p foxRequest = []"
    by (simp_all add: handler_defs stub_defs)
  have g2: "resolveImage ?g foxRequest
             = (Inr (?src, None, Some ''a red fox''), [EvGenerate (generationRequest foxRequest)])"
    and p2: "resolveImage ?p foxRequest
             = (Inr (?src, None, Some ''a red fox''), [EvGenerate (generationRequest foxRequest)])"
    by (simp_all add: resolveImage_def generationRequest_def stub_defs truthy_def or_else_def)
  have g3: "imageUploadFails ?g (packageUploadArgs ?g foxRequest ?src None)"
    and p3: "imageUploadFails ?p (packageUploadArgs ?p foxRequest ?src None)"
    by (simp_all add: handler_defs stub_defs slug_fox show_ts)
  have g4: "uploadToIPFS_try ?g (packageUploadArgs ?g foxRequest ?src None)
              = (Inl (AxiosError ''Request failed with status code 403'' (Some (403, ''denied''))),
                 [EvGet ''http://x/fox.png''])"
    by (simp add: handler_defs stub_defs slug_fox show_ts)
  have "\<exists>tr2. uploadToIPFS_try ?p (packageUploadArgs ?p foxRequest ?src None)
              = (Inl (AxiosError ''Request failed with status code 403'' (Some (403, ''{}''))), tr2)"
    by (simp add: handler_defs stub_defs slug_fox show_ts)
  then obtain tr2 where p4: "uploadToIPFS_try ?p (packageUploadArgs ?p foxRequest ?src None)
              = (Inl (AxiosError ''Request failed with status code 403'' (Some (403, ''{}''))), tr2)"
    by blast
  note g = upload_failure_aborts [OF g1 g2 g3]
  note p = upload_failure_aborts [OF p1 p2 p3]
  from g g4 have ga: "handleCreatePackage ?g foxRequest =
      (Inl (Error (''NFT package creation failed: ''
             @ upload_catch ?g (AxiosError ''Request failed with status code 403'' (Some (403, ''denied''))))),
       [EvGenerate (generationRequest foxRequest)]
         @ EvUploadStage (packageUploadArgs ?g foxRequest ?src None) # [EvGet ''http://x/fox.png''])"
    by blast
  from g g4 have gb: "upload_catch ?g (AxiosError ''Request failed with status code 403'' (Some (403, ''denied'')))
      = authFailed403 ''denied''" by blast
  from p p4 have pa: "fst (handleCreatePackage ?p foxRequest) =
      Inl (Error (''NFT package creation failed: ''
             @ upload_catch ?p (AxiosError ''Request failed with status code 403'' (Some (403, ''{}'')))))"
    by (metis fst_conv)
  from p p4 have pb: "upload_catch ?p (AxiosError ''Request failed with status code 403'' (Some (403, ''{}'')))
      = authFailed403 ''{}''" by blast
  from p have pc: "filter metadataEvent (snd (handleCreatePackage ?p foxRequest)) = []"
    by (simp only: filter_empty_conv) blast
  from ga gb pa pb pc show ?thesis by (simp only: append.simps)
qed

theorem upload_failure_unattributed:
  "imageUploadFails stubWorldForbidden
     (packageUploadArgs stubWorldForbidden foxRequest (Some ''http://x/fox.png'') None)
   \<and> \<not> imageUploadFails stubWorldMetadataForbidden
     (packageUploadArgs stubWorldMetadataForbidden foxRequest (Some ''http://x/fox.png'') None)
   \<and> EvMetadataStage (packageMetadataArgs foxRequest ''abc123'')
       \<in> set (snd (handleCreatePackage stubWorldMetadataForbidden foxRequest))
   \<and> fst (handleCreatePackage stubWorldForbidden foxRequest)
       = Inl (Error (''NFT package creation failed: '' @ authFailed403 ''{}''))
   \<and> fst (handleCreatePackage stubWorldMetadataForbidden foxRequest)
       = Inl (Error (''NFT package creation failed: '' @ authFailed403 ''{}''))"
  by (simp add: handler_defs stub_defs slug_fox show_ts)

theorem no_source_rejected_witness:
  "handleCreatePackage stubWorld emptyRequest =
     (Inl (Error ''NFT package creation failed: Must provide either prompt, imageUrl, or imagePath''), [])"
  using no_source_rejected [of emptyRequest stubWorld]
  by (simp add: handler_defs stub_defs)

theorem url_source_skips_generation_witness:
  "filter generateEvent (snd (handleCreatePackage stubWorld artRequest)) = []
   \<and> (\<exists>uargs tr. snd (handleCreatePackage stubWorld artRequest) = EvUploadStage uargs # tr
          \<and> ua_imageUrl uargs = Some ''https://mysite.com/art.png'')"
proof -
  have 1: "package_issues stubWorld artRequest = []"
    by (simp add: handler_defs stub_defs)
  have 2: "\<not> truthy (pa_prompt artRequest)"
    by (simp add: stub_defs truthy_def)
  have 3: "pa_imageUrl artRequest = Some ''https://mysite.com/art.png''"
    by (simp add: stub_defs)
  have 4: "''https://mysite.com/art.png'' \<noteq> []" by simp
  from url_source_skips_generation [OF 1 2 3 4] show ?thesis
    by (simp only: filter_empty_conv) blast
qed

theorem slug_not_idempotent:
  "slug (slug ''aaaaaaaaaaaaaaaaaaaaaaaaaaaaaaaaaaaaaaaaaaaaaaaaa b'')
     \<noteq> slug ''aaaaaaaaaaaaaaaaaaaaaaaaaaaaaaaaaaaaaaaaaaaaaaaaa b''"
proof -
  have 1: "slug ''aaaaaaaaaaaaaaaaaaaaaaaaaaaaaaaaaaaaaaaaaaaaaaaaa b''
             = ''aaaaaaaaaaaaaaaaaaaaaaaaaaaaaaaaaaaaaaaaaaaaaaaaa-''"
    by code_simp
  have 2: "slug ''aaaaaaaaaaaaaaaaaaaaaaaaaaaaaaaaaaaaaaaaaaaaaaaaa-''
             = ''aaaaaaaaaaaaaaaaaaaaaaaaaaaaaaaaaaaaaaaaaaaaaaaaa''"
    by code_simp
  show ?thesis unfolding 1 2 by simp
qed

theorem slug_and_filename_witness:
  "slug (slug ''Dragon #1!!'') = slug ''Dragon #1!!''
   \<and> ua_fileName (packageUploadArgs stubWorld foxRequest (Some ''http://x/fox.png'') None)
       = Some ''fox-1-1700000000000.png''"
proof -
  have 1: "length (strip_hyphens (replace_runs (toLowerCase ''Dragon #1!!''))) \<le> 50"
    by code_simp
  have 2: "EvUploadStage (packageUploadArgs stubWorld foxRequest (Some ''http://x/fox.png'') None)
             \<in> set (snd (handleCreatePackage stubWorld foxRequest))"
    by (simp add: handler_defs stub_defs slug_fox show_ts)
  have 3: "slug (if pa_name foxRequest \<noteq> [] then pa_name foxRequest
                 else or_else (pa_prompt foxRequest) ''nft-image'')
             @ ''-'' @ show_nat (dateNow stubWorld) @ ''.png'' = ''fox-1-1700000000000.png''"
    by (simp add: stub_defs slug_fox show_ts)
  note t = slug_and_filename [of "''Dragon #1!!''" stubWorld foxRequest]
  from t 1 have a: "slug (slug ''Dragon #1!!'') = slug ''Dragon #1!!''" by blast
  from t 2 have "ua_fileName (packageUploadArgs stubWorld foxRequest (Some ''http://x/fox.png'') None)
       = Some (slug (if pa_name foxRequest \<noteq> [] then pa_name foxRequest
                 else or_else (pa_prompt foxRequest) ''nft-image'')
             @ ''-'' @ show_nat (dateNow stubWorld) @ ''.png'')" by blast
  with 3 a show ?thesis by (simp only:)
qed

theorem metadata_failure_hides_cid:
  "fst (handleCreatePackage stubWorldMetadataDown foxRequest)
     = Inl (Error ''NFT package creation failed: Metadata creation failed: Network Error'')
   \<and> EvMetadataStage (packageMetadataArgs foxRequest ''abc123'')
       \<in> set (snd (handleCreatePackage stubWorldMetadataDown foxRequest))
   \<and> \<not> js_includes ''NFT package creation failed: Metadata creation failed: Network Error'' ''abc123''"
proof (intro conjI)
  show "\<not> js_includes ''NFT package creation failed: Metadata creation failed: Network Error'' ''abc123''"
    by code_simp
  show "fst (handleCreatePackage stubWorldMetadataDown foxRequest)
     = Inl (Error ''NFT package creation failed: Metadata creation failed: Network Error'')"
    by (simp add: handler_defs stub_defs slug_fox show_ts)
  show "EvMetadataStage (packageMetadataArgs foxRequest ''abc123'')
       \<in> set (snd (handleCreatePackage stubWorldMetadataDown foxRequest))"
    by (simp add: handler_defs stub_defs slug_fox show_ts)
qed

theorem metadata_failure_message_witness:
  "\<exists>x tr. handleCreatePackage stubWorldMetadataDown foxRequest =
            (Inl (Error (''NFT package creation failed: '' @ metadata_catch stubWorldMetadataDown x)), tr)"
proof -
  let ?w = stubWorldMetadataDown
  have 1: "package_issues ?w foxRequest = []"
    by (simp add: handler_defs stub_defs)
  have 2: "resolveImage ?w foxRequest
             = (Inr (Some ''http://x/fox.png'', None, Some ''a red fox''),
                [EvGenerate (generationRequest foxRequest)])"
    by (simp add: resolveImage_def generationRequest_def stub_defs truthy_def or_else_def)
  have "\<exists>up tr2. handleUploadToIPFS ?w (packageUploadArgs ?w foxRequest (Some ''http://x/fox.png'') None)
                   = (Inr up, tr2) \<and> ur_cid up = Some ''abc123''"
    by (simp add: handler_defs stub_defs slug_fox show_ts)
  then obtain up tr2 where
    3: "handleUploadToIPFS ?w (packageUploadArgs ?w foxRequest (Some ''http://x/fox.png'') None)
          = (Inr up, tr2)" and 4: "ur_cid up = Some ''abc123''" by blast
  have 5: "''abc123'' \<noteq> []" by simp
  have "\<exists>e tr3. handleCreateMetadata ?w (packageMetadataArgs foxRequest ''abc123'') = (Inl e, tr3)"
    by (simp add: handler_defs stub_defs)
  then obtain e tr3 where
    6: "handleCreateMetadata ?w (packageMetadataArgs foxRequest ''abc123'') = (Inl e, tr3)" by blast
  from metadata_failure_message [OF 1 2 3 4 5 6] show ?thesis by blast
qed


theorem path_filename_override_witness:
  "(\<exists>ep form k. EvPost ep form k \<in> set (snd (handleUploadToIPFS stubWorld pathUpload))
       \<and> fd_fileName form = ''dragon.png'')
   \<and> (\<exists>r. fst (handleUploadToIPFS stubWorld pathUpload) = Inr r \<and> ur_fileName r = ''dragon.png'')
   \<and> (\<exists>r. fst (handleUploadToIPFS stubWorld bothUpload) = Inr r \<and> ur_fileName r = ''mine.png'')
   \<and> EvReadFile ''/tmp/art/dragon.png'' \<notin> set (snd (handleUploadToIPFS stubWorld bothUpload))"
proof -
  have 1: "\<not> truthy (ua_imageUrl pathUpload)"
    and 2: "ua_imagePath pathUpload = Some ''/tmp/art/dragon.png''"
    and q2: "ua_imagePath bothUpload = Some ''/tmp/art/dragon.png''"
    and 7: "ua_imageUrl bothUpload = Some ''https://example.com/download''
              \<and> ''https://example.com/download'' \<noteq> []"
    by (simp_all add: stub_defs truthy_def)
  have 3: "''/tmp/art/dragon.png'' \<noteq> []" by simp
  have 4: "split_pop ''/tmp/art/dragon.png'' = ''dragon.png''"
    and 8: "split_pop (urlPathname stubWorld ''https://example.com/download'') = ''download''"
    and 9: "parsedFileName bothUpload = ''mine.png''"
    by (simp_all add: stub_defs split_pop_def parsedFileName_def)
  have 5: "\<exists>r. fst (handleUploadToIPFS stubWorld pathUpload) = Inr r"
    and 6: "\<exists>ep form k. EvPost ep form k \<in> set (snd (handleUploadToIPFS stubWorld pathUpload))"
    and 10: "\<exists>r. fst (handleUploadToIPFS stubWorld bothUpload) = Inr r"
    by (simp_all add: handler_defs stub_defs)
  note a = path_filename_override [OF 2 3, of stubWorld]
  note b = path_filename_override [OF q2 3, of stubWorld]
  from a 1 4 have a1: "\<forall>ep form k. EvPost ep form k \<in> set (snd (handleUploadToIPFS stubWorld pathUpload))
      \<longrightarrow> fd_fileName form = ''dragon.png''"
    and a2: "\<forall>r. fst (handleUploadToIPFS stubWorld pathUpload) = Inr r \<longrightarrow> ur_fileName r = ''dragon.png''"
    by simp_all
  from b 7 have b0: "EvReadFile ''/tmp/art/dragon.png'' \<notin> set (snd (handleUploadToIPFS stubWorld bothUpload))
      \<and> (\<forall>r. fst (handleUploadToIPFS stubWorld bothUpload) = Inr r \<longrightarrow>
            ur_fileName r = (if CHR ''.'' \<in> set (split_pop (urlPathname stubWorld ''https://example.com/download''))
                then split_pop (urlPathname stubWorld ''https://example.com/download'')
                else parsedFileName bothUpload))"
    by blast
  with 8 9 have b1: "EvReadFile ''/tmp/art/dragon.png'' \<notin> set (snd (handleUploadToIPFS stubWorld bothUpload))"
    and b2: "\<forall>r. fst (handleUploadToIPFS stubWorld bothUpload) = Inr r \<longrightarrow> ur_fileName r = ''mine.png''"
    by simp_all
  from a1 a2 b1 b2 5 6 10 show ?thesis by blast
qed

theorem url_overrides_path:
  "ua_imagePath bothUpload = Some ''/tmp/art/dragon.png''
   \<and> ua_fileName bothUpload = Some ''mine.png''
   \<and> split_pop ''/tmp/art/dragon.png'' = ''dragon.png''
   \<and> handleUploadToIPFS stubWorld bothUpload =
       (Inr \<lparr>ur_success = True, ur_cid = Some ''abc123'', ur_ipfsUrl = ''ipfs://abc123'',
              ur_gatewayUrl = ''https://gateway.pinata.cloud/ipfs/abc123'',
              ur_service = ''pinata'', ur_fileName = ''mine.png'',
              ur_message = ''Image uploaded to IPFS successfully''\<rparr>,
        [EvGet ''https://example.com/download'',
         EvPost ''https://uploads.pinata.cloud/v3/files''
           \<lparr>fd_file = ImageBytes ''PNG'', fd_fileName = ''mine.png'',
              fd_fields = [(''network'', ''public'')]\<rparr> ''jwt''])"
  by (simp add: handler_defs stub_defs)

theorem source_precedence_witness:
  "package_issues stubWorld mixedRequest = []
   \<and> (\<exists>tr. snd (handleCreatePackage stubWorld mixedRequest)
              = EvGenerate (generationRequest mixedRequest) # tr)
   \<and> fst (handleCreatePackage stubWorld mixedRequest) = fst (handleCreatePackage stubWorld foxRequest)
   \<and> package_issues stubWorld urlAndPathRequest = []
   \<and> (\<exists>uargs tr. snd (handleCreatePackage stubWorld urlAndPathRequest) = EvUploadStage uargs # tr
          \<and> ua_imageUrl uargs = Some ''https://mysite.com/art.png'')
   \<and> fst (handleCreatePackage stubWorld urlAndPathRequest) = fst (handleCreatePackage stubWorld artRequest)"
proof -
  have 1: "url_issues stubWorld ''imageUrl'' (pa_imageUrl mixedRequest) = []"
    and 2: "url_issues stubWorld ''external_url'' (pa_external_url mixedRequest) = []"
    and 3: "url_issues stubWorld ''imageUrl'' (pa_imageUrl urlAndPathRequest) = []"
    and 4: "url_issues stubWorld ''external_url'' (pa_external_url urlAndPathRequest) = []"
    by (simp_all add: url_issues_def stub_defs)
  have 5: "truthy (pa_prompt mixedRequest)"
    and 6: "\<not> truthy (pa_prompt urlAndPathRequest) \<and> truthy (pa_imageUrl urlAndPathRequest)"
    by (simp_all add: truthy_def stub_defs)
  have 7: "mixedRequest\<lparr>pa_imageUrl := None, pa_imagePath := None\<rparr> = foxRequest"
    and 8: "urlAndPathRequest\<lparr>pa_imagePath := None\<rparr> = artRequest"
    and 9: "pa_imageUrl urlAndPathRequest = Some ''https://mysite.com/art.png''"
    by (simp_all add: stub_defs)
  note m = source_precedence [OF 1 2]
  note u = source_precedence [OF 3 4]
  from m 5 have m1: "package_issues stubWorld mixedRequest = []"
    and m2: "\<exists>tr. snd (handleCreatePackage stubWorld mixedRequest)
              = EvGenerate (generationRequest mixedRequest) # tr"
    and m3: "fst (handleCreatePackage stubWorld mixedRequest)
              = fst (handleCreatePackage stubWorld (mixedRequest\<lparr>pa_imageUrl := None, pa_imagePath := None\<rparr>))"
    by blast+
  from u 6 have u1: "package_issues stubWorld urlAndPathRequest = []"
    and u2: "\<exists>uargs tr. snd (handleCreatePackage stubWorld urlAndPathRequest) = EvUploadStage uargs # tr
          \<and> ua_imageUrl uargs = pa_imageUrl urlAndPathRequest"
    and u3: "fst (handleCreatePackage stubWorld urlAndPathRequest)
              = fst (handleCreatePackage stubWorld (urlAndPathRequest\<lparr>pa_imagePath := None\<rparr>))"
    by blast+
  from m1 m2 m3 u1 u2 u3 show ?thesis by (simp only: 7 8 9)
qed

theorem malformed_url_rejected:
  "truthy (pa_prompt badUrlRequest)
   \<and> pa_imageUrl badUrlRequest = Some ''not a url''
   \<and> handleCreatePackage stubWorld badUrlRequest
       = (Inl (Error ''NFT package creation failed: Invalid url''), [])
   \<and> badUrlRequest\<lparr>pa_imageUrl := None\<rparr> = foxRequest
   \<and> \<not> isl (fst (handleCreatePackage stubWorld foxRequest))"
  by (simp add: handler_defs stub_defs slug_fox show_ts)

end
